theory Spec2Isabelle
  imports Main "HOL-Library.Char_ord" "HOL-Library.List_Lexorder" "HOL-Library.Multiset"
begin

section \<open>The LLDB property definition emitter\<close>

text \<open>
  A shallow embedding of \<^verbatim>\<open>lldb/utils/TableGen/LLDBPropertyDefEmitter.cpp\<close>.
  The output stream \<^verbatim>\<open>raw_ostream &OS\<close> is the text written so far, passed in and
  returned extended; \<^verbatim>\<open>OS << x\<close> appends. A failed assertion and a fatal error of
  a field accessor end the run: the result is then \<open>Inl\<close> of the error together with
  the text the stream holds at that moment.
\<close>

subsection \<open>Records of the record source\<close>

text \<open>
  Modelled from the spec: the classes \<^verbatim>\<open>Record\<close>, \<^verbatim>\<open>RecordVal\<close> and \<^verbatim>\<open>Init\<close> of
  \<^verbatim>\<open>llvm/TableGen/Record.h\<close> are not among the sources. A record has the name of its
  definition and exposes named fields by field name, each a string, an integer or a
  boolean, or absent; there is no fixed schema beyond field presence. The emitter does
  no arithmetic on an integer field, it only prints it, so the value is an \<open>int\<close>.
\<close>

datatype Init = StringInit string | IntInit int | BitInit bool

record Record =
  getName :: string
  Values :: "(string \<times> Init) list"

datatype error = MissingDefault | ConflictingDefault | FatalError

text \<open>
  Modelled from the spec: \<^verbatim>\<open>Record::getValue\<close> looks a field up by name and returns a
  null pointer when the record has no such field. The emitter only tests the pointer
  (lines 54, 57 to 59, 96) or dereferences a non-null one (lines 83 and 103).
\<close>

definition getValue :: "Record \<Rightarrow> string \<Rightarrow> Init option" where
  "getValue R FieldName = map_of (Values R) FieldName"

text \<open>
  Modelled from the spec: \<^verbatim>\<open>Record::getValueAsString\<close> and \<^verbatim>\<open>Record::getValueAsInt\<close>
  return the field's value when the field is present and of that kind; every other
  case is a failure of the record source, a fatal error.
\<close>

definition getValueAsString :: "Record \<Rightarrow> string \<Rightarrow> error + string" where
  "getValueAsString R FieldName =
     (case getValue R FieldName of
        Some (StringInit s) \<Rightarrow> Inr s
      | _ \<Rightarrow> Inl FatalError)"

definition getValueAsInt :: "Record \<Rightarrow> string \<Rightarrow> error + int" where
  "getValueAsInt R FieldName =
     (case getValue R FieldName of
        Some (IntInit i) \<Rightarrow> Inr i
      | _ \<Rightarrow> Inl FatalError)"

subsection \<open>Text\<close>

abbreviation dquote :: string where
  "dquote \<equiv> [CHR 0x22]"

abbreviation newline :: string where
  "newline \<equiv> [CHR 0x0A]"

text \<open>\<^verbatim>\<open>std::to_string\<close> of a signed integer: decimal digits, a minus sign when negative.\<close>

fun to_decimal :: "nat \<Rightarrow> string" where
  "to_decimal n =
     (if n < 10 then [''0123456789'' ! n]
      else to_decimal (n div 10) @ [''0123456789'' ! (n mod 10)])"

declare to_decimal.simps [simp del]

definition to_string :: "int \<Rightarrow> string" where
  "to_string i = (if i < 0 then ''-'' @ to_decimal (nat (- i)) else to_decimal (nat i))"

text \<open>
  Modelled from the spec: \<^verbatim>\<open>Init::getAsUnquotedString\<close> is the raw unquoted text of
  a string value; for the other kinds it is the text the value is printed as.
\<close>

fun getAsUnquotedString :: "Init \<Rightarrow> string" where
  "getAsUnquotedString (StringInit s) = s"
| "getAsUnquotedString (IntInit i) = to_string i"
| "getAsUnquotedString (BitInit b) = (if b then ''1'' else ''0'')"

text \<open>\<^verbatim>\<open>std::replace(first, last, old_value, new_value)\<close> on a string.\<close>

definition std_replace :: "string \<Rightarrow> char \<Rightarrow> char \<Rightarrow> string" where
  "std_replace s old_value new_value = map (\<lambda>c. if c = old_value then new_value else c) s"

subsection \<open>Grouping\<close>

text \<open>
  \<^verbatim>\<open>RecordsByDefinition\<close> is a \<^verbatim>\<open>std::map<std::string, std::vector<Record *>>\<close>. It is
  modelled by the list of its entries in iteration order, that is in ascending order
  of the keys, compared byte by byte as \<^verbatim>\<open>std::string\<close> does.
  \<open>push_back_at\<close> is the statement \<^verbatim>\<open>result[Key].push_back(Property)\<close>: the entry of
  an absent key is created with an empty vector at its place in the order.
\<close>

type_synonym RecordsByDefinition = "(string \<times> Record list) list"

fun push_back_at :: "string \<Rightarrow> Record \<Rightarrow> RecordsByDefinition \<Rightarrow> RecordsByDefinition" where
  "push_back_at Key P [] = [(Key, [P])]"
| "push_back_at Key P ((K, V) # result) =
     (if Key = K then (K, V @ [P]) # result
      else if Key < K then (Key, [P]) # (K, V) # result
      else (K, V) # push_back_at Key P result)"

text \<open>The loop of \<^verbatim>\<open>getPropertyList\<close>, from the map built so far.\<close>

fun getPropertyList_from :: "RecordsByDefinition \<Rightarrow> Record list \<Rightarrow> error + RecordsByDefinition" where
  "getPropertyList_from result [] = Inr result"
| "getPropertyList_from result (P # Properties) =
     (case getValueAsString P ''Definition'' of
        Inl e \<Rightarrow> Inl e
      | Inr Key \<Rightarrow> getPropertyList_from (push_back_at Key P result) Properties)"

definition getPropertyList :: "Record list \<Rightarrow> error + RecordsByDefinition" where
  "getPropertyList Properties = getPropertyList_from [] Properties"

subsection \<open>Emission\<close>

text \<open>A range-based \<^verbatim>\<open>for\<close> loop whose body writes to the stream and may abort.\<close>

primrec for_each :: "('a \<Rightarrow> string \<Rightarrow> error \<times> string + string) \<Rightarrow> 'a list \<Rightarrow> string
    \<Rightarrow> error \<times> string + string" where
  "for_each body [] OS = Inr OS"
| "for_each body (x # xs) OS =
     (case body x OS of
        Inl abort \<Rightarrow> Inl abort
      | Inr OS' \<Rightarrow> for_each body xs OS')"

text \<open>\<^verbatim>\<open>emitPropertyEnum(Record *, raw_ostream &)\<close>, lines 35 to 39.\<close>

definition emitPropertyEnum :: "Record \<Rightarrow> string \<Rightarrow> string" where
  "emitPropertyEnum P OS =
     (let OS = OS @ ''eProperty'';
          OS = OS @ getName P;
          OS = OS @ '','' @ newline
      in OS)"

definition hasDefaultUnsignedValue :: "Record \<Rightarrow> bool" where
  "hasDefaultUnsignedValue P = (getValue P ''HasDefaultUnsignedValue'' \<noteq> None)"

definition hasDefaultEnumValue :: "Record \<Rightarrow> bool" where
  "hasDefaultEnumValue P = (getValue P ''HasDefaultEnumValue'' \<noteq> None)"

definition hasDefaultStringValue :: "Record \<Rightarrow> bool" where
  "hasDefaultStringValue P = (getValue P ''HasDefaultStringValue'' \<noteq> None)"

text \<open>
  \<^verbatim>\<open>emitProperty\<close>, lines 41 to 112. The operands of a chained \<^verbatim>\<open><<\<close> are taken from
  left to right. The two assertions are the validation of the record, modelled as
  checked (a build with assertions enabled): they stand after the writes of lines 42
  to 55 and before the write of the default value.
\<close>

definition emitProperty :: "Record \<Rightarrow> string \<Rightarrow> error \<times> string + string" where
  "emitProperty P OS =
     (let OS = OS @ ''  {'';
          OS = OS @ dquote
      in case getValueAsString P ''Name'' of
        Inl e \<Rightarrow> Inl (e, OS)
      | Inr Name \<Rightarrow>
     (let OS = OS @ Name @ dquote;
          OS = OS @ '', '';
          OS = OS @ ''OptionValue::eType''
      in case getValueAsString P ''Type'' of
        Inl e \<Rightarrow> Inl (e, OS)
      | Inr Type \<Rightarrow>
     (let OS = OS @ Type;
          OS = OS @ '', '';
          OS = OS @ (if getValue P ''Global'' \<noteq> None then ''true'' else ''false'');
          OS = OS @ '', ''
      in if \<not> (hasDefaultUnsignedValue P \<or> hasDefaultEnumValue P \<or>
               hasDefaultStringValue P)
         then Inl (MissingDefault, OS)
         else if \<not> \<not> (hasDefaultUnsignedValue P \<and> hasDefaultEnumValue P)
         then Inl (ConflictingDefault, OS)
         else
           case (if hasDefaultUnsignedValue P
                 then map_sum id to_string (getValueAsInt P ''DefaultUnsignedValue'')
                 else if hasDefaultEnumValue P
                 then getValueAsString P ''DefaultEnumValue''
                 else Inr ''0'') of
             Inl e \<Rightarrow> Inl (e, OS)
           | Inr DefaultValue \<Rightarrow>
     (let OS = OS @ DefaultValue;
          OS = OS @ '', '';
          OS = OS @ (if hasDefaultStringValue P
                     then (case getValue P ''DefaultStringValue'' of
                             Some D \<Rightarrow> dquote @ getAsUnquotedString D @ dquote
                           | None \<Rightarrow> dquote @ dquote)
                     else ''nullptr'');
          OS = OS @ '', ''
      in case (if getValue P ''EnumValues'' \<noteq> None
               then getValueAsString P ''EnumValues''
               else Inr ''{}'') of
           Inl e \<Rightarrow> Inl (e, OS)
         | Inr EnumValues \<Rightarrow>
     (let OS = OS @ EnumValues;
          OS = OS @ '', '';
          OS = OS @ (case getValue P ''Description'' of
                       Some D \<Rightarrow> dquote @ getAsUnquotedString D @ dquote
                     | None \<Rightarrow> dquote @ dquote);
          OS = OS @ ''},'' @ newline
      in Inr OS)))))"

text \<open>The guard macro of lines 120 to 121 and of lines 143 to 144.\<close>

definition NeededMacro :: "string \<Rightarrow> string" where
  "NeededMacro PropertyName =
     (let NeededMacro = ''LLDB_PROPERTIES_'' @ PropertyName
      in std_replace NeededMacro (CHR '' '') (CHR ''_''))"

text \<open>\<^verbatim>\<open>emityProperties\<close>, lines 115 to 135.\<close>

definition emityProperties :: "string \<Rightarrow> Record list \<Rightarrow> string \<Rightarrow> error \<times> string + string" where
  "emityProperties PropertyName PropertyRecords OS =
     (let OS = OS @ ''// Property definitions for '' @ PropertyName @ newline;
          OS = OS @ ''#ifdef '' @ NeededMacro PropertyName @ newline;
          OS = OS @ ''static constexpr PropertyDefinition g_'' @ PropertyName
                  @ ''_properties[] = {'' @ newline
      in case for_each emitProperty PropertyRecords OS of
        Inl abort \<Rightarrow> Inl abort
      | Inr OS \<Rightarrow>
     (let OS = OS @ ''};'' @ newline;
          OS = OS @ ''#undef '' @ NeededMacro PropertyName @ newline;
          OS = OS @ ''#endif // '' @ PropertyName @ '' Property'' @ newline @ newline
      in Inr OS))"

text \<open>
  \<^verbatim>\<open>emitPropertyEnum(std::string, std::vector<Record *>, raw_ostream &)\<close>, lines 138 to
  155, the overload for a whole group.
\<close>

definition emitPropertyEnum_group :: "string \<Rightarrow> Record list \<Rightarrow> string \<Rightarrow> string" where
  "emitPropertyEnum_group PropertyName PropertyRecords OS =
     (let OS = OS @ ''// Property enum cases for '' @ PropertyName @ newline;
          OS = OS @ ''#ifdef '' @ NeededMacro PropertyName @ newline;
          OS = fold emitPropertyEnum PropertyRecords OS;
          OS = OS @ ''#undef '' @ NeededMacro PropertyName @ newline;
          OS = OS @ ''#endif // '' @ PropertyName @ '' Property'' @ newline @ newline
      in OS)"

text \<open>
  The two entry points, lines 157 to 176. \<^verbatim>\<open>emitSourceFileHeader\<close> of
  \<^verbatim>\<open>llvm/TableGen/TableGenBackend.h\<close> is not among the sources and is a parameter: it
  takes the description and the stream. \<open>Properties\<close> is what
  \<^verbatim>\<open>Records.getAllDerivedDefinitions("Property")\<close> returns.
\<close>

definition EmitPropertyDefs ::
    "(string \<Rightarrow> string \<Rightarrow> string) \<Rightarrow> Record list \<Rightarrow> string \<Rightarrow> error \<times> string + string" where
  "EmitPropertyDefs emitSourceFileHeader Properties OS =
     (let OS = emitSourceFileHeader ''Property definitions for LLDB.'' OS
      in case getPropertyList Properties of
        Inl e \<Rightarrow> Inl (e, OS)
      | Inr PropertyList \<Rightarrow>
          for_each (\<lambda>PropertyRecordPair.
              emityProperties (fst PropertyRecordPair) (snd PropertyRecordPair))
            PropertyList OS)"

definition EmitPropertyEnumDefs ::
    "(string \<Rightarrow> string \<Rightarrow> string) \<Rightarrow> Record list \<Rightarrow> string \<Rightarrow> error \<times> string + string" where
  "EmitPropertyEnumDefs emitSourceFileHeader Properties OS =
     (let OS = emitSourceFileHeader ''Property definition enum for LLDB.'' OS
      in case getPropertyList Properties of
        Inl e \<Rightarrow> Inl (e, OS)
      | Inr PropertyList \<Rightarrow>
          Inr (fold (\<lambda>PropertyRecordPair.
                  emitPropertyEnum_group (fst PropertyRecordPair) (snd PropertyRecordPair))
                PropertyList OS))"

subsection \<open>Notions used in the statements\<close>

text \<open>The text the stream holds when a call ends, whether it returned or aborted.\<close>

definition stream_of :: "error \<times> string + string \<Rightarrow> string" where
  "stream_of r = (case r of Inl (e, OS) \<Rightarrow> OS | Inr OS \<Rightarrow> OS)"

text \<open>
  The outcome of a call on a stream that already holds \<open>OS\<close>, from its outcome on the
  empty stream.
\<close>

definition prepend :: "string \<Rightarrow> error \<times> string + string \<Rightarrow> error \<times> string + string" where
  "prepend OS r = (case r of Inl (e, t) \<Rightarrow> Inl (e, OS @ t) | Inr t \<Rightarrow> Inr (OS @ t))"

text \<open>
  What \<^verbatim>\<open>emitProperty\<close> writes for a record on an empty stream: for a record it
  completes on, the row of the record.
\<close>

definition row_of :: "Record \<Rightarrow> string" where
  "row_of P = stream_of (emitProperty P [])"

text \<open>Reading a decimal integer literal, with an optional minus sign.\<close>

definition read_decimal :: "string \<Rightarrow> nat" where
  "read_decimal s = foldl (\<lambda>n c. 10 * n + (of_char c - 48)) 0 s"

definition read_integer :: "string \<Rightarrow> int" where
  "read_integer s =
     (case s of
        [] \<Rightarrow> 0
      | c # t \<Rightarrow> if c = CHR ''-'' then - int (read_decimal t) else int (read_decimal s))"

abbreviation Definition_of :: "Record \<Rightarrow> error + string" where
  "Definition_of P \<equiv> getValueAsString P ''Definition''"

text \<open>The vector stored under a key, empty for an absent key.\<close>

definition records_at :: "RecordsByDefinition \<Rightarrow> string \<Rightarrow> Record list" where
  "records_at result Key = (case map_of result Key of None \<Rightarrow> [] | Some V \<Rightarrow> V)"

subsection \<open>Example records\<close>

text \<open>The two records of the Debugger scenario.\<close>

definition verbose :: Record where
  "verbose = \<lparr>getName = ''verbose'', Values =
     [(''Name'', StringInit ''verbose''), (''Type'', StringInit ''Boolean''),
      (''Definition'', StringInit ''Debugger''),
      (''HasDefaultUnsignedValue'', BitInit True), (''DefaultUnsignedValue'', IntInit 0)]\<rparr>"

definition timeout :: Record where
  "timeout = \<lparr>getName = ''timeout'', Values =
     [(''Name'', StringInit ''timeout''), (''Type'', StringInit ''UInt64''),
      (''Definition'', StringInit ''Debugger''), (''Global'', BitInit True),
      (''HasDefaultUnsignedValue'', BitInit True), (''DefaultUnsignedValue'', IntInit 30),
      (''Description'', StringInit ''Seconds'')]\<rparr>"

text \<open>The first record of the scenario without any default.\<close>

definition no_default :: Record where
  "no_default = \<lparr>getName = ''verbose'', Values =
     [(''Name'', StringInit ''verbose''), (''Type'', StringInit ''Boolean''),
      (''Definition'', StringInit ''Debugger'')]\<rparr>"

text \<open>The first record of the scenario with a field \<^verbatim>\<open>Global\<close> that holds the bit 0.\<close>

definition global_off :: Record where
  "global_off = \<lparr>getName = ''verbose'', Values =
     [(''Name'', StringInit ''verbose''), (''Type'', StringInit ''Boolean''),
      (''Definition'', StringInit ''Debugger''), (''Global'', BitInit False),
      (''HasDefaultUnsignedValue'', BitInit True), (''DefaultUnsignedValue'', IntInit 0)]\<rparr>"

text \<open>The second record of the scenario with an enumeration default added.\<close>

definition conflicting_default :: Record where
  "conflicting_default = \<lparr>getName = ''timeout'', Values =
     [(''Name'', StringInit ''timeout''), (''Type'', StringInit ''UInt64''),
      (''Definition'', StringInit ''Debugger''),
      (''HasDefaultUnsignedValue'', BitInit True), (''DefaultUnsignedValue'', IntInit 30),
      (''HasDefaultEnumValue'', BitInit True), (''DefaultEnumValue'', StringInit ''eThirty'')]\<rparr>"

text \<open>A record with an enumeration default, a string default and enumeration values.\<close>

definition prompt :: Record where
  "prompt = \<lparr>getName = ''Prompt'', Values =
     [(''Name'', StringInit ''prompt''), (''Type'', StringInit ''String''),
      (''Definition'', StringInit ''Debugger''), (''Global'', BitInit True),
      (''HasDefaultEnumValue'', BitInit True),
      (''DefaultEnumValue'', StringInit ''eOptionPromptPlain''),
      (''HasDefaultStringValue'', BitInit True),
      (''DefaultStringValue'', StringInit ''(lldb) ''),
      (''EnumValues'', StringInit ''OptionEnumValues(g_prompt_values)'')]\<rparr>"

text \<open>A record of another group, with a string default.\<close>

definition arg0 :: Record where
  "arg0 = \<lparr>getName = ''Arg0'', Values =
     [(''Name'', StringInit ''arg0''), (''Type'', StringInit ''String''),
      (''Definition'', StringInit ''Target''),
      (''HasDefaultStringValue'', BitInit True), (''DefaultStringValue'', StringInit '''')]\<rparr>"

text \<open>A header writer to run the entry points with: one comment line.\<close>

definition comment_header :: "string \<Rightarrow> string \<Rightarrow> string" where
  "comment_header Desc OS = OS @ ''// '' @ Desc @ newline"

section \<open>Properties\<close>

text \<open>Unfolding the accessors and the emitters on concrete records.\<close>

lemmas accessors = getValue_def getValueAsString_def getValueAsInt_def
  hasDefaultUnsignedValue_def hasDefaultEnumValue_def hasDefaultStringValue_def

lemmas run_defs = EmitPropertyDefs_def EmitPropertyEnumDefs_def comment_header_def
  getPropertyList_def emityProperties_def emitPropertyEnum_group_def emitPropertyEnum_def
  NeededMacro_def std_replace_def emitProperty_def to_string_def to_decimal.simps

subsection \<open>Decimal text\<close>

text \<open>\<^verbatim>\<open>std::to_string\<close> writes the decimal literal of its argument.\<close>

lemma digit_char:
  assumes "d < 10"
  shows "of_char (''0123456789'' ! d) = 48 + d" and "''0123456789'' ! d \<noteq> CHR ''-''"
proof -
  from assms have "d = 0 \<or> d = 1 \<or> d = 2 \<or> d = 3 \<or> d = 4 \<or> d = 5 \<or> d = 6 \<or> d = 7 \<or>
      d = 8 \<or> d = 9"
    by arith
  then show "of_char (''0123456789'' ! d) = 48 + d" and "''0123456789'' ! d \<noteq> CHR ''-''"
    by auto
qed

lemma read_decimal_snoc:
  "read_decimal (s @ [c]) = 10 * read_decimal s + (of_char c - 48)"
  by (simp add: read_decimal_def)

lemma read_decimal_to_decimal: "read_decimal (to_decimal n) = n"
proof (induction n rule: to_decimal.induct)
  case (1 n)
  show ?case
  proof (cases "n < 10")
    case True
    then show ?thesis
      by (subst to_decimal.simps) (simp add: read_decimal_def digit_char(1))
  next
    case False
    have "n mod 10 < 10" by simp
    with False "1.IH" show ?thesis
      by (subst to_decimal.simps) (simp add: read_decimal_snoc digit_char(1))
  qed
qed

lemma to_decimal_head: "\<exists>c t. to_decimal n = c # t \<and> c \<noteq> CHR ''-''"
proof (induction n rule: to_decimal.induct)
  case (1 n)
  show ?case
  proof (cases "n < 10")
    case True
    then show ?thesis
      by (subst to_decimal.simps) (simp add: digit_char(2))
  next
    case False
    with "1.IH" obtain c t where "to_decimal (n div 10) = c # t" "c \<noteq> CHR ''-''" by blast
    with False show ?thesis
      by (subst to_decimal.simps) simp
  qed
qed

lemma read_integer_to_string: "read_integer (to_string i) = i"
proof (cases "i < 0")
  case True
  then show ?thesis
    by (simp add: to_string_def read_integer_def read_decimal_to_decimal)
next
  case False
  obtain c t where ct: "to_decimal (nat i) = c # t" "c \<noteq> CHR ''-''"
    using to_decimal_head by blast
  have "read_decimal (c # t) = nat i"
    using read_decimal_to_decimal [of "nat i"] ct by simp
  with False ct show ?thesis
    by (simp add: to_string_def read_integer_def)
qed

subsection \<open>Streams\<close>

lemma prepend_simps [simp]:
  "prepend OS (Inl (e, t)) = Inl (e, OS @ t)"
  "prepend OS (Inr t) = Inr (OS @ t)"
  by (simp_all add: prepend_def)

lemma prepend_prepend: "prepend a (prepend b r) = prepend (a @ b) r"
  by (cases r) (auto simp: prepend_def)

lemma emitProperty_prepend: "emitProperty P OS = prepend OS (emitProperty P [])"
  by (simp add: emitProperty_def Let_def split: sum.splits option.splits)

lemma for_each_emitProperty_prepend:
  "for_each emitProperty Ps OS = prepend OS (for_each emitProperty Ps [])"
proof (induction Ps arbitrary: OS)
  case Nil
  show ?case by simp
next
  case (Cons P Ps)
  show ?case
  proof (cases "emitProperty P []")
    case (Inl a)
    then show ?thesis
      using emitProperty_prepend [of P OS] by (cases a) simp
  next
    case (Inr t)
    then have "emitProperty P OS = Inr (OS @ t)"
      using emitProperty_prepend [of P OS] by simp
    then show ?thesis
      using Inr Cons.IH [of "OS @ t"] Cons.IH [of t] by (simp add: prepend_prepend)
  qed
qed

subsection \<open>The outcomes of one row\<close>

text \<open>
  Every call of \<^verbatim>\<open>emitProperty\<close> ends in one of seven ways: the two fatal errors of the
  accessors of the name and the type, the two failed assertions, the fatal errors of the
  accessors of the default value and of the enumeration values, and the complete row.
\<close>

lemma field_error:
  "getValueAsString P f = Inl e \<Longrightarrow> e = FatalError"
  "map_sum id to_string (getValueAsInt P f) = Inl e \<Longrightarrow> e = FatalError"
  by (auto simp: getValueAsString_def getValueAsInt_def split: option.splits Init.splits)

lemma emitProperty_cases [case_names NoName NoType Missing Conflicting NoDefault NoEnumValues Row]:
  fixes P OS
  defines "DV \<equiv> (if hasDefaultUnsignedValue P
       then map_sum id to_string (getValueAsInt P ''DefaultUnsignedValue'')
       else if hasDefaultEnumValue P
       then getValueAsString P ''DefaultEnumValue''
       else Inr ''0'')"
    and "EV \<equiv> (if getValue P ''EnumValues'' \<noteq> None
       then getValueAsString P ''EnumValues''
       else Inr ''{}'')"
    and "opening \<equiv> (\<lambda>Name Type. OS @ ''  {'' @ dquote @ Name @ dquote @ '', '' @
        ''OptionValue::eType'' @ Type @ '', '' @
        (if getValue P ''Global'' \<noteq> None then ''true'' else ''false'') @ '', '')"
    and "DS \<equiv> (if hasDefaultStringValue P
         then (case getValue P ''DefaultStringValue'' of
                 Some D \<Rightarrow> dquote @ getAsUnquotedString D @ dquote
               | None \<Rightarrow> dquote @ dquote)
         else ''nullptr'')"
    and "DE \<equiv> (case getValue P ''Description'' of
           Some D \<Rightarrow> dquote @ getAsUnquotedString D @ dquote
         | None \<Rightarrow> dquote @ dquote)"
    and "valid \<equiv> (hasDefaultUnsignedValue P \<or> hasDefaultEnumValue P \<or> hasDefaultStringValue P) \<and>
       \<not> (hasDefaultUnsignedValue P \<and> hasDefaultEnumValue P)"
  obtains
    "getValueAsString P ''Name'' = Inl FatalError"
      "emitProperty P OS = Inl (FatalError, OS @ ''  {'' @ dquote)"
  | Name where "getValueAsString P ''Name'' = Inr Name"
      "getValueAsString P ''Type'' = Inl FatalError"
      "emitProperty P OS =
         Inl (FatalError, OS @ ''  {'' @ dquote @ Name @ dquote @ '', '' @ ''OptionValue::eType'')"
  | Name Type where "getValueAsString P ''Name'' = Inr Name"
      "getValueAsString P ''Type'' = Inr Type"
      "\<not> (hasDefaultUnsignedValue P \<or> hasDefaultEnumValue P \<or> hasDefaultStringValue P)"
      "emitProperty P OS = Inl (MissingDefault, opening Name Type)"
  | Name Type where "getValueAsString P ''Name'' = Inr Name"
      "getValueAsString P ''Type'' = Inr Type"
      "hasDefaultUnsignedValue P \<and> hasDefaultEnumValue P"
      "emitProperty P OS = Inl (ConflictingDefault, opening Name Type)"
  | Name Type where "getValueAsString P ''Name'' = Inr Name"
      "getValueAsString P ''Type'' = Inr Type" "valid" "DV = Inl FatalError"
      "emitProperty P OS = Inl (FatalError, opening Name Type)"
  | Name Type DefaultValue where "getValueAsString P ''Name'' = Inr Name"
      "getValueAsString P ''Type'' = Inr Type" "valid" "DV = Inr DefaultValue"
      "EV = Inl FatalError"
      "emitProperty P OS =
         Inl (FatalError, opening Name Type @ DefaultValue @ '', '' @ DS @ '', '')"
  | Name Type DefaultValue EnumValues where "getValueAsString P ''Name'' = Inr Name"
      "getValueAsString P ''Type'' = Inr Type" "valid" "DV = Inr DefaultValue"
      "EV = Inr EnumValues"
      "emitProperty P OS =
         Inr (opening Name Type @ DefaultValue @ '', '' @ DS @ '', '' @ EnumValues @ '', '' @
              DE @ ''},'' @ newline)"
proof -
  have eq: "emitProperty P OS =
    (case getValueAsString P ''Name'' of
       Inl e \<Rightarrow> Inl (e, OS @ ''  {'' @ dquote)
     | Inr Name \<Rightarrow>
    (case getValueAsString P ''Type'' of
       Inl e \<Rightarrow> Inl (e, OS @ ''  {'' @ dquote @ Name @ dquote @ '', '' @ ''OptionValue::eType'')
     | Inr Type \<Rightarrow>
       if \<not> (hasDefaultUnsignedValue P \<or> hasDefaultEnumValue P \<or> hasDefaultStringValue P)
       then Inl (MissingDefault, opening Name Type)
       else if hasDefaultUnsignedValue P \<and> hasDefaultEnumValue P
       then Inl (ConflictingDefault, opening Name Type)
       else
    (case DV of
       Inl e \<Rightarrow> Inl (e, opening Name Type)
     | Inr DefaultValue \<Rightarrow>
    (case EV of
       Inl e \<Rightarrow> Inl (e, opening Name Type @ DefaultValue @ '', '' @ DS @ '', '')
     | Inr EnumValues \<Rightarrow>
         Inr (opening Name Type @ DefaultValue @ '', '' @ DS @ '', '' @ EnumValues @ '', '' @
              DE @ ''},'' @ newline)))))"
    unfolding emitProperty_def Let_def DV_def EV_def opening_def DS_def DE_def
    by (simp only: append_assoc not_not)
  have DV: "e = FatalError" if "DV = Inl e" for e
    using that field_error [of P _ e] by (auto simp: DV_def split: if_splits)
  have EV: "e = FatalError" if "EV = Inl e" for e
    using that field_error [of P _ e] by (auto simp: EV_def split: if_splits)
  show thesis
  proof (cases "getValueAsString P ''Name''")
    case (Inl e)
    with field_error(1) [OF Inl] eq that(1) show thesis by simp
  next
    case Name: (Inr Name)
    show thesis
    proof (cases "getValueAsString P ''Type''")
      case (Inl e)
      with field_error(1) [OF Inl] eq Name that(2) show thesis by simp
    next
      case Type: (Inr Type)
      show thesis
      proof (cases valid)
        case False
        then show thesis
          using eq Name Type that(3) [of Name Type] that(4) [of Name Type]
          unfolding valid_def by (cases "hasDefaultUnsignedValue P \<and> hasDefaultEnumValue P") auto
      next
        case True
        then have v: "hasDefaultUnsignedValue P \<or> hasDefaultEnumValue P \<or> hasDefaultStringValue P"
          "\<not> (hasDefaultUnsignedValue P \<and> hasDefaultEnumValue P)"
          unfolding valid_def by blast+
        show thesis
        proof (cases DV)
          case (Inl e)
          with DV [OF Inl] eq Name Type v True that(5) [of Name Type] show thesis by simp
        next
          case D: (Inr DefaultValue)
          show thesis
          proof (cases EV)
            case (Inl e)
            with EV [OF Inl] eq Name Type v True D that(6) [of Name Type DefaultValue]
            show thesis by simp
          next
            case (Inr EnumValues)
            with eq Name Type v True D that(7) [of Name Type DefaultValue EnumValues]
            show thesis by simp
          qed
        qed
      qed
    qed
  qed
qed

lemma emityProperties_opening:
  "\<exists>rest. stream_of (emityProperties g Ps OS) =
     OS @ ''// Property definitions for '' @ g @ newline @
     ''#ifdef '' @ NeededMacro g @ newline @
     ''static constexpr PropertyDefinition g_'' @ g @ ''_properties[] = {'' @ newline @ rest"
proof -
  let ?OS = "OS @ ''// Property definitions for '' @ g @ newline @
     ''#ifdef '' @ NeededMacro g @ newline @
     ''static constexpr PropertyDefinition g_'' @ g @ ''_properties[] = {'' @ newline"
  have "for_each emitProperty Ps ?OS = prepend ?OS (for_each emitProperty Ps [])"
    by (rule for_each_emitProperty_prepend)
  then show ?thesis
    by (cases "for_each emitProperty Ps []")
      (auto simp: emityProperties_def stream_of_def Let_def)
qed

lemma fold_emitPropertyEnum:
  "fold emitPropertyEnum Ps OS =
     OS @ concat (map (\<lambda>P. ''eProperty'' @ getName P @ '','' @ newline) Ps)"
  by (induction Ps arbitrary: OS) (simp_all add: emitPropertyEnum_def)

subsection \<open>Loops\<close>

lemma for_each_Inr:
  "for_each body xs OS = Inr OS' \<Longrightarrow> x \<in> set xs \<Longrightarrow> \<exists>a b. body x a = Inr b"
proof (induction xs arbitrary: OS)
  case Nil
  then show ?case by simp
next
  case (Cons y xs)
  from Cons.prems(1) obtain OS1 where y: "body y OS = Inr OS1"
    and rest: "for_each body xs OS1 = Inr OS'"
    by (auto split: sum.splits)
  show ?case
  proof (cases "x = y")
    case True
    with y show ?thesis by blast
  next
    case False
    with Cons.prems(2) have "x \<in> set xs" by simp
    from Cons.IH [OF rest this] show ?thesis .
  qed
qed

lemma for_each_Inl:
  "for_each body xs OS = Inl abort \<Longrightarrow> \<exists>x \<in> set xs. \<exists>a. body x a = Inl abort"
proof (induction xs arbitrary: OS)
  case Nil
  then show ?case by simp
next
  case (Cons y xs)
  show ?case
  proof (cases "body y OS")
    case (Inl a)
    with Cons.prems have "body y OS = Inl abort" by simp
    then show ?thesis by auto
  next
    case (Inr OS1)
    with Cons.prems have "for_each body xs OS1 = Inl abort" by simp
    from Cons.IH [OF this] show ?thesis by auto
  qed
qed

subsection \<open>The map of groups\<close>

text \<open>The order of the keys: strings are compared byte by byte, a proper prefix first.\<close>

lemma string_less_bytewise:
  "(x # xs < y # ys \<longleftrightarrow>
      (of_char x :: nat) < of_char y \<or> x = y \<and> xs < ys) \<and>
   [] < y # ys \<and> \<not> xs < ([] :: string)"
  by (simp add: less_char_def)

lemma keys_push_back_at:
  "set (map fst (push_back_at Key P result)) = insert Key (set (map fst result))"
  by (induction Key P result rule: push_back_at.induct) (auto simp: image_iff)

lemma sorted_push_back_at:
  "sorted_wrt (<) (map fst result) \<Longrightarrow> sorted_wrt (<) (map fst (push_back_at Key P result))"
proof (induction result)
  case Nil
  show ?case by simp
next
  case (Cons a result)
  obtain K V where a: "a = (K, V)" by (cases a)
  from Cons.prems have tl: "sorted_wrt (<) (map fst result)"
    and hd: "\<forall>k \<in> set (map fst result). K < k"
    by (simp_all add: a)
  have "\<forall>k \<in> set (map fst (push_back_at Key P result)). K < k" if "K < Key"
    using hd that by (simp add: keys_push_back_at del: set_map)
  with Cons.IH [OF tl] Cons.prems show ?case
    by (auto simp: a simp del: set_map)
qed

lemma map_of_push_back_at:
  "sorted_wrt (<) (map fst result) \<Longrightarrow>
   map_of (push_back_at Key P result) = (map_of result)(Key \<mapsto> records_at result Key @ [P])"
proof (induction result)
  case Nil
  show ?case by (simp add: records_at_def)
next
  case (Cons a result)
  obtain K V where a: "a = (K, V)" by (cases a)
  from Cons.prems have tl: "sorted_wrt (<) (map fst result)"
    and hd: "\<forall>k \<in> set (map fst result). K < k"
    by (simp_all add: a)
  have absent: "map_of result Key = None" if "Key < K"
  proof -
    have "Key \<notin> set (map fst result)" using hd that by (auto simp del: set_map)
    then show ?thesis by (simp add: map_of_eq_None_iff)
  qed
  show ?case
    using Cons.IH [OF tl] absent by (auto simp: a records_at_def fun_eq_iff)
qed

lemma records_at_push_back_at:
  "sorted_wrt (<) (map fst result) \<Longrightarrow>
   records_at (push_back_at Key P result) K = records_at result K @ (if K = Key then [P] else [])"
  by (simp add: records_at_def map_of_push_back_at)

lemma total_push_back_at:
  "sum_list (map (\<lambda>e. length (snd e)) (push_back_at Key P result)) =
   Suc (sum_list (map (\<lambda>e. length (snd e)) result))"
  by (induction Key P result rule: push_back_at.induct) auto

lemma nonempty_push_back_at:
  "\<forall>e \<in> set result. snd e \<noteq> [] \<Longrightarrow> \<forall>e \<in> set (push_back_at Key P result). snd e \<noteq> []"
  by (induction Key P result rule: push_back_at.induct) (auto split: if_splits)

lemma getPropertyList_from_Inr:
  "getPropertyList_from result Properties = Inr PropertyList \<Longrightarrow>
   sorted_wrt (<) (map fst result) \<Longrightarrow>
   sorted_wrt (<) (map fst PropertyList) \<and>
   set (map fst PropertyList) =
     set (map fst result) \<union> {Key. \<exists>P \<in> set Properties. Definition_of P = Inr Key} \<and>
   (\<forall>Key. records_at PropertyList Key =
      records_at result Key @ filter (\<lambda>P. Definition_of P = Inr Key) Properties) \<and>
   sum_list (map (\<lambda>e. length (snd e)) PropertyList) =
     sum_list (map (\<lambda>e. length (snd e)) result) + length Properties \<and>
   ((\<forall>e \<in> set result. snd e \<noteq> []) \<longrightarrow> (\<forall>e \<in> set PropertyList. snd e \<noteq> []))"
proof (induction Properties arbitrary: result)
  case Nil
  then show ?case by simp
next
  case (Cons P Properties)
  from Cons.prems(1) obtain Key where Key: "Definition_of P = Inr Key"
    and rest: "getPropertyList_from (push_back_at Key P result) Properties = Inr PropertyList"
    by (auto split: sum.splits)
  note IH = Cons.IH [OF rest sorted_push_back_at [OF Cons.prems(2)]]
  show ?case
  proof (intro conjI)
    show "sorted_wrt (<) (map fst PropertyList)" using IH by blast
    show "set (map fst PropertyList) =
      set (map fst result) \<union> {Key. \<exists>P \<in> set (P # Properties). Definition_of P = Inr Key}"
      using IH Key by (auto simp: keys_push_back_at simp del: set_map)
    show "\<forall>K. records_at PropertyList K =
      records_at result K @ filter (\<lambda>P. Definition_of P = Inr K) (P # Properties)"
      using IH Key by (auto simp: records_at_push_back_at [OF Cons.prems(2)])
    show "sum_list (map (\<lambda>e. length (snd e)) PropertyList) =
      sum_list (map (\<lambda>e. length (snd e)) result) + length (P # Properties)"
      using IH by (simp add: total_push_back_at)
    show "(\<forall>e \<in> set result. snd e \<noteq> []) \<longrightarrow> (\<forall>e \<in> set PropertyList. snd e \<noteq> [])"
      using IH nonempty_push_back_at [of result Key P] by blast
  qed
qed

lemma getPropertyList_from_Inl:
  "getPropertyList_from result Properties = Inl e \<longleftrightarrow>
   e = FatalError \<and> (\<exists>P \<in> set Properties. Definition_of P = Inl FatalError)"
proof (induction Properties arbitrary: result)
  case Nil
  show ?case by simp
next
  case (Cons P Properties)
  show ?case
    using Cons.IH field_error(1) [of P "''Definition''"]
    by (cases "Definition_of P") auto
qed

lemma records_at_entry:
  "sorted_wrt (<) (map fst result) \<Longrightarrow> (Key, V) \<in> set result \<Longrightarrow> records_at result Key = V"
proof -
  assume "sorted_wrt (<) (map fst result)" and mem: "(Key, V) \<in> set result"
  then have "distinct (map fst result)"
    by (simp add: strict_sorted_iff)
  with mem have "map_of result Key = Some V" by simp
  then show ?thesis by (simp add: records_at_def)
qed

lemma entry_of_records_at:
  "records_at result Key \<noteq> [] \<Longrightarrow> (Key, records_at result Key) \<in> set result"
  by (auto simp: records_at_def split: option.splits dest: map_of_SomeD)

lemma getPropertyList_Inr:
  assumes "getPropertyList Properties = Inr PropertyList"
  shows "sorted_wrt (<) (map fst PropertyList)"
    and "set (map fst PropertyList) = {Key. \<exists>P \<in> set Properties. Definition_of P = Inr Key}"
    and "records_at PropertyList Key = filter (\<lambda>P. Definition_of P = Inr Key) Properties"
    and "sum_list (map (\<lambda>e. length (snd e)) PropertyList) = length Properties"
    and "\<forall>e \<in> set PropertyList. snd e \<noteq> []"
    and "\<forall>P \<in> set Properties. \<exists>Key. Definition_of P = Inr Key"
proof -
  note inv = getPropertyList_from_Inr [OF assms [unfolded getPropertyList_def], simplified]
  show "sorted_wrt (<) (map fst PropertyList)" using inv by blast
  show "set (map fst PropertyList) = {Key. \<exists>P \<in> set Properties. Definition_of P = Inr Key}"
    using inv by simp
  show "records_at PropertyList Key = filter (\<lambda>P. Definition_of P = Inr Key) Properties"
    using inv by (simp add: records_at_def)
  show "sum_list (map (\<lambda>e. length (snd e)) PropertyList) = length Properties"
    using inv by simp
  show "\<forall>e \<in> set PropertyList. snd e \<noteq> []" using inv by simp
  show "\<forall>P \<in> set Properties. \<exists>Key. Definition_of P = Inr Key"
  proof
    fix P assume P: "P \<in> set Properties"
    show "\<exists>Key. Definition_of P = Inr Key"
    proof (cases "Definition_of P")
      case (Inl e)
      with field_error(1) [OF Inl] P
      have "getPropertyList_from [] Properties = Inl FatalError"
        by (auto simp: getPropertyList_from_Inl)
      with assms show ?thesis by (simp add: getPropertyList_def)
    next
      case (Inr Key)
      then show ?thesis by blast
    qed
  qed
qed

lemma group_is_filter:
  assumes "getPropertyList Properties = Inr PropertyList" and "(Key, V) \<in> set PropertyList"
  shows "V = filter (\<lambda>P. Definition_of P = Inr Key) Properties" and "V \<noteq> []"
  using getPropertyList_Inr(1,3,5) [OF assms(1)] records_at_entry [OF _ assms(2)] assms(2)
  by auto

lemma group_of_record:
  assumes "getPropertyList Properties = Inr PropertyList" and "P \<in> set Properties"
  shows "\<exists>Key V. (Key, V) \<in> set PropertyList \<and> P \<in> set V \<and> Definition_of P = Inr Key"
proof -
  from getPropertyList_Inr(6) [OF assms(1)] assms(2)
  obtain Key where Key: "Definition_of P = Inr Key" by blast
  have "P \<in> set (records_at PropertyList Key)"
    using getPropertyList_Inr(3) [OF assms(1), of Key] Key assms(2) by simp
  moreover from this have "(Key, records_at PropertyList Key) \<in> set PropertyList"
    by (intro entry_of_records_at) auto
  ultimately show ?thesis using Key by blast
qed

text \<open>A map is fixed by its keys and the vector under each key.\<close>

lemma sorted_entries_determined:
  assumes "sorted_wrt (<) (map fst m)" and "sorted_wrt (<) (map fst m')"
    and "set (map fst m) = set (map fst m')"
    and "\<And>Key. records_at m Key = records_at m' Key"
  shows "m = (m' :: RecordsByDefinition)"
proof -
  have keys: "map fst m = map fst m'"
    using assms(1-3) by (metis strict_sorted_equal)
  have d: "distinct (map fst m)" "distinct (map fst m')"
    using assms(1,2) by (simp_all add: strict_sorted_iff)
  have "map snd m = map snd m'"
  proof (rule nth_equalityI)
    show "length (map snd m) = length (map snd m')"
      using keys by (metis length_map)
  next
    fix i assume "i < length (map snd m)"
    then have i: "i < length m" "i < length m'"
      using keys by (simp, metis length_map)
    then have "(fst (m ! i), snd (m ! i)) \<in> set m" "(fst (m' ! i), snd (m' ! i)) \<in> set m'"
      by simp_all
    then have "records_at m (fst (m ! i)) = snd (m ! i)"
      "records_at m' (fst (m' ! i)) = snd (m' ! i)"
      using assms(1,2) by (simp_all add: records_at_entry)
    moreover have "fst (m ! i) = fst (m' ! i)"
      using keys i by (metis nth_map)
    ultimately show "map snd m ! i = map snd m' ! i"
      using assms(4) i by simp
  qed
  with keys show ?thesis
    by (metis zip_map_fst_snd)
qed

lemma getPropertyList_determined:
  assumes "\<And>Key. filter (\<lambda>P. Definition_of P = Key) xs = filter (\<lambda>P. Definition_of P = Key) ys"
  shows "getPropertyList xs = getPropertyList ys"
proof -
  have mem: "(\<exists>P \<in> set xs. Definition_of P = Key) \<longleftrightarrow> (\<exists>P \<in> set ys. Definition_of P = Key)"
    for Key
  proof -
    have "(\<exists>P \<in> set xs. Definition_of P = Key) \<longleftrightarrow> filter (\<lambda>P. Definition_of P = Key) xs \<noteq> []"
      by (simp add: filter_empty_conv)
    also have "\<dots> \<longleftrightarrow> filter (\<lambda>P. Definition_of P = Key) ys \<noteq> []"
      by (simp add: assms)
    also have "\<dots> \<longleftrightarrow> (\<exists>P \<in> set ys. Definition_of P = Key)"
      by (simp add: filter_empty_conv)
    finally show ?thesis .
  qed
  show ?thesis
  proof (cases "getPropertyList xs")
    case (Inl e)
    then have "getPropertyList ys = Inl e"
      using mem [of "Inl FatalError"]
      by (simp add: getPropertyList_def getPropertyList_from_Inl)
    with Inl show ?thesis by simp
  next
    case x: (Inr m)
    show ?thesis
    proof (cases "getPropertyList ys")
      case (Inl e)
      then have "getPropertyList xs = Inl e"
        using mem [of "Inl FatalError"]
        by (simp add: getPropertyList_def getPropertyList_from_Inl)
      with x show ?thesis by simp
    next
      case y: (Inr m')
      have "m = m'"
      proof (rule sorted_entries_determined)
        show "sorted_wrt (<) (map fst m)" by (rule getPropertyList_Inr(1) [OF x])
        show "sorted_wrt (<) (map fst m')" by (rule getPropertyList_Inr(1) [OF y])
        show "set (map fst m) = set (map fst m')"
          unfolding getPropertyList_Inr(2) [OF x] getPropertyList_Inr(2) [OF y]
          using mem by blast
        show "records_at m Key = records_at m' Key" for Key
          unfolding getPropertyList_Inr(3) [OF x] getPropertyList_Inr(3) [OF y]
          by (rule assms)
      qed
      with x y show ?thesis by simp
    qed
  qed
qed

lemma group_order_of_record_set:
  assumes "set xs = set ys" and "getPropertyList xs = Inr m" and "getPropertyList ys = Inr m'"
  shows "map fst m = map fst m'"
proof -
  have "set (map fst m) = set (map fst m')"
    unfolding getPropertyList_Inr(2) [OF assms(2)] getPropertyList_Inr(2) [OF assms(3)]
    using assms(1) by simp
  with getPropertyList_Inr(1) [OF assms(2)] getPropertyList_Inr(1) [OF assms(3)]
  show ?thesis by (metis strict_sorted_equal)
qed

subsection \<open>Runs\<close>

lemma emityProperties_Inr:
  "emityProperties g Ps OS = Inr OS' \<Longrightarrow> \<exists>a b. for_each emitProperty Ps a = Inr b"
  by (auto simp: emityProperties_def Let_def split: sum.splits)

lemma emityProperties_Inl:
  "emityProperties g Ps OS = Inl abort \<Longrightarrow> \<exists>a. for_each emitProperty Ps a = Inl abort"
  by (auto simp: emityProperties_def Let_def split: sum.splits)

lemma EmitPropertyDefs_Inr:
  assumes "EmitPropertyDefs h Properties OS = Inr out" and "P \<in> set Properties"
  shows "\<exists>a b. emitProperty P a = Inr b"
proof -
  from assms(1) obtain PropertyList where pl: "getPropertyList Properties = Inr PropertyList"
    and run: "for_each (\<lambda>p. emityProperties (fst p) (snd p)) PropertyList
        (h ''Property definitions for LLDB.'' OS) = Inr out"
    by (auto simp: EmitPropertyDefs_def Let_def split: sum.splits)
  from group_of_record [OF pl assms(2)] obtain Key V
    where mem: "(Key, V) \<in> set PropertyList" and P: "P \<in> set V" by blast
  from for_each_Inr [OF run mem] obtain a b where "emityProperties Key V a = Inr b" by auto
  from emityProperties_Inr [OF this] obtain a' b' where "for_each emitProperty V a' = Inr b'"
    by blast
  from for_each_Inr [OF this P] show ?thesis .
qed

lemma EmitPropertyDefs_Inl:
  assumes "EmitPropertyDefs h Properties OS = Inl (e, s)" and "e \<noteq> FatalError"
  shows "\<exists>P \<in> set Properties. \<exists>a. emitProperty P a = Inl (e, s)"
proof -
  from assms obtain PropertyList where pl: "getPropertyList Properties = Inr PropertyList"
    and run: "for_each (\<lambda>p. emityProperties (fst p) (snd p)) PropertyList
        (h ''Property definitions for LLDB.'' OS) = Inl (e, s)"
    by (auto simp: EmitPropertyDefs_def Let_def getPropertyList_def getPropertyList_from_Inl
        split: sum.splits)
  from for_each_Inl [OF run] obtain Key V a
    where mem: "(Key, V) \<in> set PropertyList" and "emityProperties Key V a = Inl (e, s)"
    by auto
  from emityProperties_Inl [OF this(2)] obtain a' where "for_each emitProperty V a' = Inl (e, s)"
    by blast
  from for_each_Inl [OF this] obtain P a'' where P: "P \<in> set V"
    and abort: "emitProperty P a'' = Inl (e, s)" by blast
  from group_is_filter(1) [OF pl mem] P have "P \<in> set Properties" by simp
  with abort show ?thesis by blast
qed

lemma emitProperty_row_of:
  "emitProperty P OS = Inr OS' \<Longrightarrow> OS' = OS @ row_of P"
  using emitProperty_prepend [of P OS]
  by (cases "emitProperty P []") (auto simp: row_of_def stream_of_def)

lemma for_each_emitProperty_rows:
  "for_each emitProperty Ps OS = Inr OS' \<Longrightarrow> OS' = OS @ concat (map row_of Ps)"
proof (induction Ps arbitrary: OS)
  case Nil
  then show ?case by simp
next
  case (Cons P Ps)
  from Cons.prems obtain OS1 where P: "emitProperty P OS = Inr OS1"
    and rest: "for_each emitProperty Ps OS1 = Inr OS'"
    by (auto split: sum.splits)
  from Cons.IH [OF rest] emitProperty_row_of [OF P] show ?case by simp
qed

lemma emityProperties_block:
  "emityProperties g Ps OS = Inr OS' \<Longrightarrow>
   OS' = OS @ ''// Property definitions for '' @ g @ newline @
     ''#ifdef '' @ NeededMacro g @ newline @
     ''static constexpr PropertyDefinition g_'' @ g @ ''_properties[] = {'' @ newline @
     concat (map row_of Ps) @
     ''};'' @ newline @
     ''#undef '' @ NeededMacro g @ newline @
     ''#endif // '' @ g @ '' Property'' @ newline @ newline"
  by (auto simp: emityProperties_def Let_def split: sum.splits
      dest!: for_each_emitProperty_rows)

lemma for_each_emityProperties_blocks:
  "for_each (\<lambda>p. emityProperties (fst p) (snd p)) m OS = Inr OS' \<Longrightarrow>
   OS' = OS @ concat (map (\<lambda>(Key, V).
     ''// Property definitions for '' @ Key @ newline @
     ''#ifdef '' @ NeededMacro Key @ newline @
     ''static constexpr PropertyDefinition g_'' @ Key @ ''_properties[] = {'' @ newline @
     concat (map row_of V) @
     ''};'' @ newline @
     ''#undef '' @ NeededMacro Key @ newline @
     ''#endif // '' @ Key @ '' Property'' @ newline @ newline) m)"
proof (induction m arbitrary: OS)
  case Nil
  then show ?case by simp
next
  case (Cons p m)
  obtain Key V where kv: "p = (Key, V)" by (cases p)
  from Cons.prems obtain OS1 where p: "emityProperties Key V OS = Inr OS1"
    and rest: "for_each (\<lambda>p. emityProperties (fst p) (snd p)) m OS1 = Inr OS'"
    by (auto simp: kv split: sum.splits)
  from Cons.IH [OF rest] emityProperties_block [OF p] show ?case by (simp add: kv)
qed

lemma mset_push_back_at:
  "mset (concat (map snd (push_back_at Key P result))) = add_mset P (mset (concat (map snd result)))"
  by (induction Key P result rule: push_back_at.induct) auto

lemma mset_getPropertyList_from:
  "getPropertyList_from result Properties = Inr PropertyList \<Longrightarrow>
   mset (concat (map snd PropertyList)) = mset (concat (map snd result)) + mset Properties"
proof (induction Properties arbitrary: result)
  case Nil
  then show ?case by simp
next
  case (Cons P Properties)
  from Cons.prems obtain Key where
    "getPropertyList_from (push_back_at Key P result) Properties = Inr PropertyList"
    by (auto split: sum.splits)
  from Cons.IH [OF this] show ?case by (simp add: mset_push_back_at)
qed

subsection \<open>The guard macro\<close>

text \<open>
  C1, as amended. The guard macro is the prefix \<^verbatim>\<open>LLDB_PROPERTIES_\<close> followed by the
  group name with every space replaced by an underscore and every other character,
  letter case included, unchanged. Both modes write it after \<^verbatim>\<open>#ifdef\<close> on the second
  line of the group's block. The group name \<^verbatim>\<open>Target Experimental\<close> yields
  \<^verbatim>\<open>LLDB_PROPERTIES_Target_Experimental\<close>.
\<close>

theorem guard_macro_replaces_spaces_only:
  "NeededMacro g = ''LLDB_PROPERTIES_'' @ map (\<lambda>c. if c = CHR '' '' then CHR ''_'' else c) g \<and>
   (\<exists>rest. emitPropertyEnum_group g Ps OS =
      OS @ ''// Property enum cases for '' @ g @ newline @
      ''#ifdef '' @ NeededMacro g @ newline @ rest) \<and>
   (\<exists>rest. stream_of (emityProperties g Ps OS) =
      OS @ ''// Property definitions for '' @ g @ newline @
      ''#ifdef '' @ NeededMacro g @ newline @ rest) \<and>
   NeededMacro ''Target Experimental'' = ''LLDB_PROPERTIES_Target_Experimental''"
proof (intro conjI)
  show "NeededMacro g = ''LLDB_PROPERTIES_'' @ map (\<lambda>c. if c = CHR '' '' then CHR ''_'' else c) g"
    by (simp add: NeededMacro_def std_replace_def)
  show "\<exists>rest. emitPropertyEnum_group g Ps OS =
      OS @ ''// Property enum cases for '' @ g @ newline @
      ''#ifdef '' @ NeededMacro g @ newline @ rest"
    by (simp add: emitPropertyEnum_group_def fold_emitPropertyEnum)
  show "\<exists>rest. stream_of (emityProperties g Ps OS) =
      OS @ ''// Property definitions for '' @ g @ newline @
      ''#ifdef '' @ NeededMacro g @ newline @ rest"
    using emityProperties_opening [of g Ps OS] by auto
  show "NeededMacro ''Target Experimental'' = ''LLDB_PROPERTIES_Target_Experimental''"
    by (simp add: NeededMacro_def std_replace_def)
qed

theorem guard_macro_replaces_spaces_only_witness:
  "NeededMacro ''Process Experimental'' = ''LLDB_PROPERTIES_Process_Experimental''"
  using guard_macro_replaces_spaces_only [of "''Process Experimental''" "[]" "[]"]
  by simp

text \<open>
  The claim as stated, with the group name uppercased, fails at the group name of
  its own example: the macro both modes write keeps the lower-case letters.
\<close>

theorem guard_macro_uppercase_counterexample:
  "emitPropertyEnum_group ''Target Experimental'' [] [] =
     ''// Property enum cases for Target Experimental'' @ newline @
     ''#ifdef LLDB_PROPERTIES_Target_Experimental'' @ newline @
     ''#undef LLDB_PROPERTIES_Target_Experimental'' @ newline @
     ''#endif // Target Experimental Property'' @ newline @ newline \<and>
   emityProperties ''Target Experimental'' [] [] = Inr (
     ''// Property definitions for Target Experimental'' @ newline @
     ''#ifdef LLDB_PROPERTIES_Target_Experimental'' @ newline @
     ''static constexpr PropertyDefinition g_Target Experimental_properties[] = {'' @ newline @
     ''};'' @ newline @
     ''#undef LLDB_PROPERTIES_Target_Experimental'' @ newline @
     ''#endif // Target Experimental Property'' @ newline @ newline) \<and>
   NeededMacro ''Target Experimental'' \<noteq> ''LLDB_PROPERTIES_TARGET_EXPERIMENTAL''"
  by (simp add: emitPropertyEnum_group_def emityProperties_def NeededMacro_def std_replace_def)

subsection \<open>Empty input\<close>

text \<open>
  C9. For an empty list of records both entry points write what \<^verbatim>\<open>emitSourceFileHeader\<close>
  writes and nothing else, no group block, and \<^verbatim>\<open>getPropertyList\<close> returns the empty
  map.
\<close>

theorem empty_input_header_only:
  "EmitPropertyDefs emitSourceFileHeader [] OS =
     Inr (emitSourceFileHeader ''Property definitions for LLDB.'' OS) \<and>
   EmitPropertyEnumDefs emitSourceFileHeader [] OS =
     Inr (emitSourceFileHeader ''Property definition enum for LLDB.'' OS) \<and>
   getPropertyList [] = Inr []"
  by (simp add: EmitPropertyDefs_def EmitPropertyEnumDefs_def getPropertyList_def)

theorem empty_input_header_only_witness:
  "EmitPropertyDefs comment_header [] [] =
     Inr (''// Property definitions for LLDB.'' @ newline) \<and>
   EmitPropertyEnumDefs comment_header [] [] =
     Inr (''// Property definition enum for LLDB.'' @ newline)"
  using empty_input_header_only [of comment_header "[]"]
  by (simp add: comment_header_def)

subsection \<open>The array declaration\<close>

text \<open>
  C10. In table mode the third line of a group's block is
  \<^verbatim>\<open>static constexpr PropertyDefinition g_\<close>, the group name as it is, and
  \<^verbatim>\<open>_properties[] = {\<close>; the line is written whether or not a later row aborts the
  run. A space of the group name stays a space inside the emitted identifier.
\<close>

theorem array_declaration_uses_group_name_verbatim:
  "(\<exists>rest. stream_of (emityProperties g Ps OS) =
      OS @ ''// Property definitions for '' @ g @ newline @
      ''#ifdef '' @ NeededMacro g @ newline @
      ''static constexpr PropertyDefinition g_'' @ g @ ''_properties[] = {'' @ newline @ rest) \<and>
   emityProperties ''Target Experimental'' [] [] = Inr (
     ''// Property definitions for Target Experimental'' @ newline @
     ''#ifdef LLDB_PROPERTIES_Target_Experimental'' @ newline @
     ''static constexpr PropertyDefinition g_Target Experimental_properties[] = {'' @ newline @
     ''};'' @ newline @
     ''#undef LLDB_PROPERTIES_Target_Experimental'' @ newline @
     ''#endif // Target Experimental Property'' @ newline @ newline)"
proof
  show "\<exists>rest. stream_of (emityProperties g Ps OS) =
      OS @ ''// Property definitions for '' @ g @ newline @
      ''#ifdef '' @ NeededMacro g @ newline @
      ''static constexpr PropertyDefinition g_'' @ g @ ''_properties[] = {'' @ newline @ rest"
    by (rule emityProperties_opening)
qed (simp add: emityProperties_def NeededMacro_def std_replace_def)

theorem array_declaration_uses_group_name_verbatim_witness:
  "\<exists>rest. stream_of (emityProperties ''Process Experimental'' [verbose] []) =
      ''// Property definitions for Process Experimental'' @ newline @
      ''#ifdef '' @ NeededMacro ''Process Experimental'' @ newline @
      ''static constexpr PropertyDefinition g_Process Experimental_properties[] = {'' @ newline @
      rest"
  using array_declaration_uses_group_name_verbatim [of "''Process Experimental''" "[verbose]" "[]"]
  by simp

subsection \<open>Validation of the defaults\<close>

text \<open>
  C2. A record has a default of a kind when it has the marker field of that kind
  (\<^verbatim>\<open>HasDefaultUnsignedValue\<close>, \<^verbatim>\<open>HasDefaultEnumValue\<close>, \<^verbatim>\<open>HasDefaultStringValue\<close>), which
  is what the emitter tests. For a record whose name and type can be read, the row ends
  with \<open>MissingDefault\<close> exactly when the record has none of the three defaults and
  with \<open>ConflictingDefault\<close> exactly when it has both the unsigned and the enumeration
  default, so validation passes in every other case. A record with either defect
  anywhere in the input makes the table run end in an abort.
\<close>

theorem default_validation:
  "(getValueAsString P ''Name'' = Inr Name \<and> getValueAsString P ''Type'' = Inr Type \<longrightarrow>
      ((\<exists>s. emitProperty P OS = Inl (MissingDefault, s)) \<longleftrightarrow>
         \<not> (hasDefaultUnsignedValue P \<or> hasDefaultEnumValue P \<or> hasDefaultStringValue P)) \<and>
      ((\<exists>s. emitProperty P OS = Inl (ConflictingDefault, s)) \<longleftrightarrow>
         hasDefaultUnsignedValue P \<and> hasDefaultEnumValue P)) \<and>
   (P \<in> set Properties \<and>
    (\<not> (hasDefaultUnsignedValue P \<or> hasDefaultEnumValue P \<or> hasDefaultStringValue P) \<or>
     hasDefaultUnsignedValue P \<and> hasDefaultEnumValue P) \<longrightarrow>
      (\<exists>e s. EmitPropertyDefs emitSourceFileHeader Properties OS' = Inl (e, s)))"
proof (intro conjI impI)
  assume "getValueAsString P ''Name'' = Inr Name \<and> getValueAsString P ''Type'' = Inr Type"
  then have N: "getValueAsString P ''Name'' = Inr Name"
    and T: "getValueAsString P ''Type'' = Inr Type" by simp_all
  show "(\<exists>s. emitProperty P OS = Inl (MissingDefault, s)) \<longleftrightarrow>
         \<not> (hasDefaultUnsignedValue P \<or> hasDefaultEnumValue P \<or> hasDefaultStringValue P)"
    using N T by (cases P OS rule: emitProperty_cases) auto
  show "(\<exists>s. emitProperty P OS = Inl (ConflictingDefault, s)) \<longleftrightarrow>
         hasDefaultUnsignedValue P \<and> hasDefaultEnumValue P"
    using N T by (cases P OS rule: emitProperty_cases) auto
next
  assume a: "P \<in> set Properties \<and>
    (\<not> (hasDefaultUnsignedValue P \<or> hasDefaultEnumValue P \<or> hasDefaultStringValue P) \<or>
     hasDefaultUnsignedValue P \<and> hasDefaultEnumValue P)"
  show "\<exists>e s. EmitPropertyDefs emitSourceFileHeader Properties OS' = Inl (e, s)"
  proof (cases "EmitPropertyDefs emitSourceFileHeader Properties OS'")
    case (Inl abort)
    then show ?thesis by (cases abort) simp
  next
    case (Inr out)
    from EmitPropertyDefs_Inr [OF Inr] a obtain x y where "emitProperty P x = Inr y" by blast
    then have False
      using a by (cases P x rule: emitProperty_cases) auto
    then show ?thesis ..
  qed
qed

theorem default_validation_witness:
  "getValueAsString no_default ''Name'' = Inr ''verbose'' \<and>
   getValueAsString no_default ''Type'' = Inr ''Boolean'' \<and>
   \<not> (hasDefaultUnsignedValue no_default \<or> hasDefaultEnumValue no_default \<or>
      hasDefaultStringValue no_default) \<and>
   (\<exists>s. emitProperty no_default [] = Inl (MissingDefault, s)) \<and>
   no_default \<in> set [verbose, no_default] \<and>
   (\<exists>e s. EmitPropertyDefs comment_header [verbose, no_default] [] = Inl (e, s)) \<and>
   getValueAsString conflicting_default ''Name'' = Inr ''timeout'' \<and>
   getValueAsString conflicting_default ''Type'' = Inr ''UInt64'' \<and>
   hasDefaultUnsignedValue conflicting_default \<and> hasDefaultEnumValue conflicting_default \<and>
   (\<exists>s. emitProperty conflicting_default [] = Inl (ConflictingDefault, s)) \<and>
   getValueAsString timeout ''Name'' = Inr ''timeout'' \<and>
   getValueAsString timeout ''Type'' = Inr ''UInt64'' \<and>
   hasDefaultUnsignedValue timeout \<and> \<not> hasDefaultEnumValue timeout \<and>
   (\<nexists>s. emitProperty timeout [] = Inl (MissingDefault, s)) \<and>
   (\<nexists>s. emitProperty timeout [] = Inl (ConflictingDefault, s))"
  using default_validation [of no_default "''verbose''" "''Boolean''" "[]"
      "[verbose, no_default]" comment_header "[]"]
    default_validation [of conflicting_default "''timeout''" "''UInt64''" "[]" "[]"]
    default_validation [of timeout "''timeout''" "''UInt64''" "[]" "[]"]
  by (simp add: no_default_def conflicting_default_def timeout_def accessors)

subsection \<open>Where validation stands\<close>

text \<open>
  C3, as amended. In table mode the validation of a record stands after the opening of
  its row: a record whose name and type can be read and which fails validation ends
  \<^verbatim>\<open>emitProperty\<close> with the stream holding what it held before, then the brace, the
  quoted name, the type symbol and the isGlobal literal with their separators, and
  nothing more of the row. A table run that aborts on a failed validation therefore
  ends with the row opening of a record that fails validation, with no complete row
  for it. The abort carries which of the two rules failed and neither the name nor the
  group of the record. Enum mode does not validate: the enum line of a record is
  written whatever defaults the record has, and the run completes whenever the
  definition of every record can be read.
\<close>

theorem validation_stands_after_the_row_opening:
  "(getValueAsString P ''Name'' = Inr Name \<and> getValueAsString P ''Type'' = Inr Type \<and>
    (\<not> (hasDefaultUnsignedValue P \<or> hasDefaultEnumValue P \<or> hasDefaultStringValue P) \<or>
     hasDefaultUnsignedValue P \<and> hasDefaultEnumValue P) \<longrightarrow>
      emitProperty P OS =
        Inl (if hasDefaultUnsignedValue P \<and> hasDefaultEnumValue P
             then ConflictingDefault else MissingDefault,
             OS @ ''  {'' @ dquote @ Name @ dquote @ '', '' @
             ''OptionValue::eType'' @ Type @ '', '' @
             (if getValue P ''Global'' \<noteq> None then ''true'' else ''false'') @ '', '')) \<and>
   ((e = MissingDefault \<or> e = ConflictingDefault) \<and>
    EmitPropertyDefs emitSourceFileHeader Properties OS' = Inl (e, s) \<longrightarrow>
      (\<exists>P \<in> set Properties. \<exists>before Name Type.
         (\<not> (hasDefaultUnsignedValue P \<or> hasDefaultEnumValue P \<or> hasDefaultStringValue P) \<or>
          hasDefaultUnsignedValue P \<and> hasDefaultEnumValue P) \<and>
         getValueAsString P ''Name'' = Inr Name \<and> getValueAsString P ''Type'' = Inr Type \<and>
         s = before @ ''  {'' @ dquote @ Name @ dquote @ '', '' @
             ''OptionValue::eType'' @ Type @ '', '' @
             (if getValue P ''Global'' \<noteq> None then ''true'' else ''false'') @ '', '')) \<and>
   emitPropertyEnum P OS = OS @ ''eProperty'' @ getName P @ '','' @ newline \<and>
   ((\<forall>P \<in> set Properties. \<exists>Key. Definition_of P = Inr Key) \<longrightarrow>
      (\<exists>out. EmitPropertyEnumDefs emitSourceFileHeader Properties OS' = Inr out))"
proof (intro conjI impI)
  show "emitPropertyEnum P OS = OS @ ''eProperty'' @ getName P @ '','' @ newline"
    by (simp add: emitPropertyEnum_def)
next
  assume a: "getValueAsString P ''Name'' = Inr Name \<and> getValueAsString P ''Type'' = Inr Type \<and>
    (\<not> (hasDefaultUnsignedValue P \<or> hasDefaultEnumValue P \<or> hasDefaultStringValue P) \<or>
     hasDefaultUnsignedValue P \<and> hasDefaultEnumValue P)"
  show "emitProperty P OS =
        Inl (if hasDefaultUnsignedValue P \<and> hasDefaultEnumValue P
             then ConflictingDefault else MissingDefault,
             OS @ ''  {'' @ dquote @ Name @ dquote @ '', '' @
             ''OptionValue::eType'' @ Type @ '', '' @
             (if getValue P ''Global'' \<noteq> None then ''true'' else ''false'') @ '', '')"
    using a by (cases P OS rule: emitProperty_cases) auto
next
  assume a: "(e = MissingDefault \<or> e = ConflictingDefault) \<and>
    EmitPropertyDefs emitSourceFileHeader Properties OS' = Inl (e, s)"
  then have "e \<noteq> FatalError" by auto
  from EmitPropertyDefs_Inl [OF conjunct2 [OF a] this]
  obtain P x where P: "P \<in> set Properties" and abort: "emitProperty P x = Inl (e, s)" by blast
  have "\<exists>before Name Type.
         (\<not> (hasDefaultUnsignedValue P \<or> hasDefaultEnumValue P \<or> hasDefaultStringValue P) \<or>
          hasDefaultUnsignedValue P \<and> hasDefaultEnumValue P) \<and>
         getValueAsString P ''Name'' = Inr Name \<and> getValueAsString P ''Type'' = Inr Type \<and>
         s = before @ ''  {'' @ dquote @ Name @ dquote @ '', '' @
             ''OptionValue::eType'' @ Type @ '', '' @
             (if getValue P ''Global'' \<noteq> None then ''true'' else ''false'') @ '', ''"
    using abort \<open>e \<noteq> FatalError\<close>
  proof (cases P x rule: emitProperty_cases)
    case (Missing Name Type)
    with abort show ?thesis by (intro exI [of _ x] exI [of _ Name] exI [of _ Type]) simp
  next
    case (Conflicting Name Type)
    with abort show ?thesis by (intro exI [of _ x] exI [of _ Name] exI [of _ Type]) simp
  qed simp_all
  with P show "\<exists>P \<in> set Properties. \<exists>before Name Type.
         (\<not> (hasDefaultUnsignedValue P \<or> hasDefaultEnumValue P \<or> hasDefaultStringValue P) \<or>
          hasDefaultUnsignedValue P \<and> hasDefaultEnumValue P) \<and>
         getValueAsString P ''Name'' = Inr Name \<and> getValueAsString P ''Type'' = Inr Type \<and>
         s = before @ ''  {'' @ dquote @ Name @ dquote @ '', '' @
             ''OptionValue::eType'' @ Type @ '', '' @
             (if getValue P ''Global'' \<noteq> None then ''true'' else ''false'') @ '', ''"
    by blast
next
  assume a: "\<forall>P \<in> set Properties. \<exists>Key. Definition_of P = Inr Key"
  have "getPropertyList Properties \<noteq> Inl e" for e
    using a by (auto simp: getPropertyList_def getPropertyList_from_Inl)
  then obtain PropertyList where "getPropertyList Properties = Inr PropertyList"
    by (cases "getPropertyList Properties") auto
  then show "\<exists>out. EmitPropertyEnumDefs emitSourceFileHeader Properties OS' = Inr out"
    by (simp add: EmitPropertyEnumDefs_def)
qed

theorem validation_stands_after_the_row_opening_witness:
  "getValueAsString no_default ''Name'' = Inr ''verbose'' \<and>
   getValueAsString no_default ''Type'' = Inr ''Boolean'' \<and>
   \<not> (hasDefaultUnsignedValue no_default \<or> hasDefaultEnumValue no_default \<or>
      hasDefaultStringValue no_default) \<and>
   emitProperty no_default ''// '' = Inl (MissingDefault,
     ''//   {'' @ dquote @ ''verbose'' @ dquote @ '', OptionValue::eTypeBoolean, false, '') \<and>
   EmitPropertyDefs comment_header [verbose, conflicting_default] [] = Inl (ConflictingDefault,
     ''// Property definitions for LLDB.'' @ newline @
     ''// Property definitions for Debugger'' @ newline @
     ''#ifdef LLDB_PROPERTIES_Debugger'' @ newline @
     ''static constexpr PropertyDefinition g_Debugger_properties[] = {'' @ newline @
     ''  {'' @ dquote @ ''verbose'' @ dquote @ '', OptionValue::eTypeBoolean, false, 0, nullptr, {}, '' @
       dquote @ dquote @ ''},'' @ newline @
     ''  {'' @ dquote @ ''timeout'' @ dquote @ '', OptionValue::eTypeUInt64, false, '') \<and>
   (\<exists>out. EmitPropertyEnumDefs comment_header [verbose, conflicting_default] [] = Inr out)"
proof -
  have run: "EmitPropertyDefs comment_header [verbose, conflicting_default] [] =
   Inl (ConflictingDefault,
     ''// Property definitions for LLDB.'' @ newline @
     ''// Property definitions for Debugger'' @ newline @
     ''#ifdef LLDB_PROPERTIES_Debugger'' @ newline @
     ''static constexpr PropertyDefinition g_Debugger_properties[] = {'' @ newline @
     ''  {'' @ dquote @ ''verbose'' @ dquote @ '', OptionValue::eTypeBoolean, false, 0, nullptr, {}, '' @
       dquote @ dquote @ ''},'' @ newline @
     ''  {'' @ dquote @ ''timeout'' @ dquote @ '', OptionValue::eTypeUInt64, false, '')"
    by (simp add: run_defs verbose_def conflicting_default_def accessors)
  have defs: "\<forall>P \<in> set [verbose, conflicting_default]. \<exists>Key. Definition_of P = Inr Key"
    by (simp add: verbose_def conflicting_default_def accessors)
  show ?thesis
    using validation_stands_after_the_row_opening
      [where P = no_default and Name = "''verbose''" and Type = "''Boolean''" and OS = "''// ''"
        and e = ConflictingDefault and emitSourceFileHeader = comment_header
        and Properties = "[verbose, conflicting_default]" and OS' = "[]"] run defs
    by (simp add: no_default_def accessors)
qed

text \<open>
  The claim as stated fails on a single record without any default: the table run
  aborts after the opening of that record's row has been written, the abort value
  \<open>MissingDefault\<close> names neither the record nor its group, and the enum run on the
  same input completes and emits the record's line.
\<close>

theorem validation_precedes_output_counterexample:
  "EmitPropertyDefs comment_header [no_default] [] = Inl (MissingDefault,
     ''// Property definitions for LLDB.'' @ newline @
     ''// Property definitions for Debugger'' @ newline @
     ''#ifdef LLDB_PROPERTIES_Debugger'' @ newline @
     ''static constexpr PropertyDefinition g_Debugger_properties[] = {'' @ newline @
     ''  {'' @ dquote @ ''verbose'' @ dquote @ '', OptionValue::eTypeBoolean, false, '') \<and>
   EmitPropertyEnumDefs comment_header [no_default] [] = Inr (
     ''// Property definition enum for LLDB.'' @ newline @
     ''// Property enum cases for Debugger'' @ newline @
     ''#ifdef LLDB_PROPERTIES_Debugger'' @ newline @
     ''ePropertyverbose,'' @ newline @
     ''#undef LLDB_PROPERTIES_Debugger'' @ newline @
     ''#endif // Debugger Property'' @ newline @ newline)"
  by (simp add: run_defs no_default_def accessors)

subsection \<open>The slots of a row\<close>

text \<open>
  C5. A complete row is the brace, the quoted name, the type symbol, the isGlobal
  literal, the default value, the default string, the enumeration values and the
  description, separated by a comma and a space, then \<^verbatim>\<open>},\<close> and a newline. The
  default-value slot is the decimal literal of the field \<^verbatim>\<open>DefaultUnsignedValue\<close>
  (it reads back as the field's value) when the record has an unsigned default, the
  unquoted text of the field \<^verbatim>\<open>DefaultEnumValue\<close> when it has no unsigned but an
  enumeration default, and
  \<^verbatim>\<open>0\<close> otherwise. The default-string slot is the text of the field
  \<^verbatim>\<open>DefaultStringValue\<close> between double quotes when the record has a string default
  (two double quotes when the marker is there and the field is not), and
  \<^verbatim>\<open>nullptr\<close> otherwise.
\<close>

theorem default_slots:
  assumes "emitProperty P OS = Inr OS'"
  shows "\<exists>Name Type DefaultValue DefaultString EnumValues Description.
     OS' = OS @ ''  {'' @ dquote @ Name @ dquote @ '', '' @
       ''OptionValue::eType'' @ Type @ '', '' @
       (if getValue P ''Global'' \<noteq> None then ''true'' else ''false'') @ '', '' @
       DefaultValue @ '', '' @ DefaultString @ '', '' @ EnumValues @ '', '' @
       Description @ ''},'' @ newline \<and>
     getValueAsString P ''Name'' = Inr Name \<and>
     getValueAsString P ''Type'' = Inr Type \<and>
     (if hasDefaultUnsignedValue P
      then \<exists>i. getValueAsInt P ''DefaultUnsignedValue'' = Inr i \<and> DefaultValue = to_string i \<and>
             read_integer DefaultValue = i
      else if hasDefaultEnumValue P
      then getValueAsString P ''DefaultEnumValue'' = Inr DefaultValue
      else DefaultValue = ''0'') \<and>
     DefaultString =
       (if hasDefaultStringValue P
        then (case getValue P ''DefaultStringValue'' of
                Some (StringInit s) \<Rightarrow> dquote @ s @ dquote
              | Some D \<Rightarrow> dquote @ getAsUnquotedString D @ dquote
              | None \<Rightarrow> dquote @ dquote)
        else ''nullptr'')"
  using assms
proof (cases P OS rule: emitProperty_cases)
  case (Row Name Type DefaultValue EnumValues)
  have s: "(case getValue P ''DefaultStringValue'' of
                 Some D \<Rightarrow> dquote @ getAsUnquotedString D @ dquote
               | None \<Rightarrow> dquote @ dquote) =
      (case getValue P ''DefaultStringValue'' of
                Some (StringInit s) \<Rightarrow> dquote @ s @ dquote
              | Some D \<Rightarrow> dquote @ getAsUnquotedString D @ dquote
              | None \<Rightarrow> dquote @ dquote)"
    by (simp split: option.splits Init.splits)
  have d: "if hasDefaultUnsignedValue P
      then \<exists>i. getValueAsInt P ''DefaultUnsignedValue'' = Inr i \<and> DefaultValue = to_string i \<and>
             read_integer DefaultValue = i
      else if hasDefaultEnumValue P
      then getValueAsString P ''DefaultEnumValue'' = Inr DefaultValue
      else DefaultValue = ''0''"
    using Row(4)
    by (cases "getValueAsInt P ''DefaultUnsignedValue''")
      (auto simp: read_integer_to_string split: if_splits)
  from Row(6) assms have "OS' = OS @ ''  {'' @ dquote @ Name @ dquote @ '', '' @
       ''OptionValue::eType'' @ Type @ '', '' @
       (if getValue P ''Global'' \<noteq> None then ''true'' else ''false'') @ '', '' @
       DefaultValue @ '', '' @ (if hasDefaultStringValue P
        then (case getValue P ''DefaultStringValue'' of
                Some (StringInit s) \<Rightarrow> dquote @ s @ dquote
              | Some D \<Rightarrow> dquote @ getAsUnquotedString D @ dquote
              | None \<Rightarrow> dquote @ dquote)
        else ''nullptr'') @ '', '' @ EnumValues @ '', '' @
       (case getValue P ''Description'' of
           Some D \<Rightarrow> dquote @ getAsUnquotedString D @ dquote
         | None \<Rightarrow> dquote @ dquote) @ ''},'' @ newline"
    unfolding s by simp
  with Row(1,2) d show ?thesis by blast
qed simp_all

theorem default_slots_witness:
  "emitProperty timeout [] = Inr (''  {'' @ dquote @ ''timeout'' @ dquote @
     '', OptionValue::eTypeUInt64, true, 30, nullptr, {}, '' @
     dquote @ ''Seconds'' @ dquote @ ''},'' @ newline) \<and>
   emitProperty prompt [] = Inr (''  {'' @ dquote @ ''prompt'' @ dquote @
     '', OptionValue::eTypeString, true, eOptionPromptPlain, '' @
     dquote @ ''(lldb) '' @ dquote @ '', OptionEnumValues(g_prompt_values), '' @
     dquote @ dquote @ ''},'' @ newline) \<and>
   (\<exists>Name Type DefaultValue DefaultString EnumValues Description.
      ''  {'' @ dquote @ ''prompt'' @ dquote @
      '', OptionValue::eTypeString, true, eOptionPromptPlain, '' @
      dquote @ ''(lldb) '' @ dquote @ '', OptionEnumValues(g_prompt_values), '' @
      dquote @ dquote @ ''},'' @ newline =
      ''  {'' @ dquote @ Name @ dquote @ '', '' @ ''OptionValue::eType'' @ Type @ '', '' @
      ''true'' @ '', '' @ DefaultValue @ '', '' @ DefaultString @ '', '' @ EnumValues @ '', '' @
      Description @ ''},'' @ newline \<and>
      Name = ''prompt'' \<and> Type = ''String'' \<and> DefaultValue = ''eOptionPromptPlain'' \<and>
      DefaultString = dquote @ ''(lldb) '' @ dquote)"
proof -
  have t: "emitProperty timeout [] = Inr (''  {'' @ dquote @ ''timeout'' @ dquote @
     '', OptionValue::eTypeUInt64, true, 30, nullptr, {}, '' @
     dquote @ ''Seconds'' @ dquote @ ''},'' @ newline)"
    by (simp add: run_defs timeout_def accessors)
  have p: "emitProperty prompt [] = Inr (''  {'' @ dquote @ ''prompt'' @ dquote @
     '', OptionValue::eTypeString, true, eOptionPromptPlain, '' @
     dquote @ ''(lldb) '' @ dquote @ '', OptionEnumValues(g_prompt_values), '' @
     dquote @ dquote @ ''},'' @ newline)"
    by (simp add: run_defs prompt_def accessors)
  from default_slots [OF p] t p show ?thesis
    by (simp add: prompt_def accessors)
qed

text \<open>
  C6, as amended. In every complete row the isGlobal slot, the third, is \<^verbatim>\<open>true\<close>
  when the record has a field named \<^verbatim>\<open>Global\<close>, whatever value the field holds, and
  \<^verbatim>\<open>false\<close> when the record has no such field.
\<close>

theorem global_slot_is_field_presence:
  assumes "emitProperty P OS = Inr OS'"
  shows "\<exists>Name Type rest.
     getValueAsString P ''Name'' = Inr Name \<and>
     getValueAsString P ''Type'' = Inr Type \<and>
     OS' = OS @ ''  {'' @ dquote @ Name @ dquote @ '', '' @
       ''OptionValue::eType'' @ Type @ '', '' @
       (if getValue P ''Global'' \<noteq> None then ''true'' else ''false'') @ '', '' @ rest"
  using assms
proof (cases P OS rule: emitProperty_cases)
  case (Row Name Type DefaultValue EnumValues)
  from Row(6) assms have "OS' = OS @ ''  {'' @ dquote @ Name @ dquote @ '', '' @
       ''OptionValue::eType'' @ Type @ '', '' @
       (if getValue P ''Global'' \<noteq> None then ''true'' else ''false'') @ '', '' @
       (DefaultValue @ '', '' @
        (if hasDefaultStringValue P
         then (case getValue P ''DefaultStringValue'' of
                 Some D \<Rightarrow> dquote @ getAsUnquotedString D @ dquote
               | None \<Rightarrow> dquote @ dquote)
         else ''nullptr'') @ '', '' @ EnumValues @ '', '' @
        (case getValue P ''Description'' of
           Some D \<Rightarrow> dquote @ getAsUnquotedString D @ dquote
         | None \<Rightarrow> dquote @ dquote) @ ''},'' @ newline)"
    by simp
  with Row(1,2) show ?thesis by blast
qed simp_all

theorem global_slot_is_field_presence_witness:
  "emitProperty timeout [] = Inr (''  {'' @ dquote @ ''timeout'' @ dquote @
     '', OptionValue::eTypeUInt64, true, 30, nullptr, {}, '' @
     dquote @ ''Seconds'' @ dquote @ ''},'' @ newline) \<and>
   getValue timeout ''Global'' = Some (BitInit True) \<and>
   emitProperty verbose [] = Inr (''  {'' @ dquote @ ''verbose'' @ dquote @
     '', OptionValue::eTypeBoolean, false, 0, nullptr, {}, '' @
     dquote @ dquote @ ''},'' @ newline) \<and>
   getValue verbose ''Global'' = None \<and>
   (\<exists>rest. ''  {'' @ dquote @ ''timeout'' @ dquote @
     '', OptionValue::eTypeUInt64, true, 30, nullptr, {}, '' @
     dquote @ ''Seconds'' @ dquote @ ''},'' @ newline =
     ''  {'' @ dquote @ ''timeout'' @ dquote @ '', '' @ ''OptionValue::eType'' @ ''UInt64'' @
     '', '' @ ''true'' @ '', '' @ rest) \<and>
   (\<exists>rest. ''  {'' @ dquote @ ''verbose'' @ dquote @
     '', OptionValue::eTypeBoolean, false, 0, nullptr, {}, '' @
     dquote @ dquote @ ''},'' @ newline =
     ''  {'' @ dquote @ ''verbose'' @ dquote @ '', '' @ ''OptionValue::eType'' @ ''Boolean'' @
     '', '' @ ''false'' @ '', '' @ rest)"
proof -
  have t: "emitProperty timeout [] = Inr (''  {'' @ dquote @ ''timeout'' @ dquote @
     '', OptionValue::eTypeUInt64, true, 30, nullptr, {}, '' @
     dquote @ ''Seconds'' @ dquote @ ''},'' @ newline)"
    by (simp add: run_defs timeout_def accessors)
  have v: "emitProperty verbose [] = Inr (''  {'' @ dquote @ ''verbose'' @ dquote @
     '', OptionValue::eTypeBoolean, false, 0, nullptr, {}, '' @
     dquote @ dquote @ ''},'' @ newline)"
    by (simp add: run_defs verbose_def accessors)
  from global_slot_is_field_presence [OF t] global_slot_is_field_presence [OF v] t v
  show ?thesis
    by (simp add: timeout_def verbose_def accessors)
qed

text \<open>
  The claim as stated reads the flag's value. A record whose field \<^verbatim>\<open>Global\<close> holds
  the bit 0 has a false flag, and its row says \<^verbatim>\<open>true\<close>: line 54 tests the pointer
  that \<^verbatim>\<open>getValue\<close> returns, not the bit.
\<close>

theorem global_flag_value_counterexample:
  "getValue global_off ''Global'' = Some (BitInit False) \<and>
   emitProperty global_off [] = Inr (''  {'' @ dquote @ ''verbose'' @ dquote @
     '', OptionValue::eTypeBoolean, true, 0, nullptr, {}, '' @
     dquote @ dquote @ ''},'' @ newline)"
  by (simp add: run_defs global_off_def accessors)

subsection \<open>The enum block\<close>

text \<open>
  C7, as amended. In enum mode the block of a group is the comment line, the
  \<^verbatim>\<open>#ifdef\<close> line of the guard macro, one line per record in the order of the group's
  vector, each \<^verbatim>\<open>eProperty\<close>, the name of the record's definition and a comma, then the
  \<^verbatim>\<open>#undef\<close> and \<^verbatim>\<open>#endif\<close> lines. For the two records of the Debugger scenario the
  run emits, after the header, one block with the lines \<^verbatim>\<open>ePropertyverbose,\<close> and
  \<^verbatim>\<open>ePropertytimeout,\<close>, guarded by \<^verbatim>\<open>LLDB_PROPERTIES_Debugger\<close>.
\<close>

theorem enum_block:
  "emitPropertyEnum_group g Ps OS =
     OS @ ''// Property enum cases for '' @ g @ newline @
     ''#ifdef '' @ NeededMacro g @ newline @
     concat (map (\<lambda>P. ''eProperty'' @ getName P @ '','' @ newline) Ps) @
     ''#undef '' @ NeededMacro g @ newline @
     ''#endif // '' @ g @ '' Property'' @ newline @ newline \<and>
   EmitPropertyEnumDefs emitSourceFileHeader [verbose, timeout] OS' = Inr (
     emitSourceFileHeader ''Property definition enum for LLDB.'' OS' @
     ''// Property enum cases for Debugger'' @ newline @
     ''#ifdef LLDB_PROPERTIES_Debugger'' @ newline @
     ''ePropertyverbose,'' @ newline @
     ''ePropertytimeout,'' @ newline @
     ''#undef LLDB_PROPERTIES_Debugger'' @ newline @
     ''#endif // Debugger Property'' @ newline @ newline)"
proof
  show "emitPropertyEnum_group g Ps OS =
     OS @ ''// Property enum cases for '' @ g @ newline @
     ''#ifdef '' @ NeededMacro g @ newline @
     concat (map (\<lambda>P. ''eProperty'' @ getName P @ '','' @ newline) Ps) @
     ''#undef '' @ NeededMacro g @ newline @
     ''#endif // '' @ g @ '' Property'' @ newline @ newline"
    by (simp add: emitPropertyEnum_group_def fold_emitPropertyEnum)
qed (simp add: run_defs verbose_def timeout_def accessors)

theorem enum_block_witness:
  "emitPropertyEnum_group ''Target Experimental'' [timeout, verbose] ''// '' =
     ''// // Property enum cases for Target Experimental'' @ newline @
     ''#ifdef LLDB_PROPERTIES_Target_Experimental'' @ newline @
     ''ePropertytimeout,'' @ newline @
     ''ePropertyverbose,'' @ newline @
     ''#undef LLDB_PROPERTIES_Target_Experimental'' @ newline @
     ''#endif // Target Experimental Property'' @ newline @ newline"
  using enum_block [of "''Target Experimental''" "[timeout, verbose]" "''// ''" comment_header "[]"]
  by (simp add: NeededMacro_def std_replace_def timeout_def verbose_def)

text \<open>
  The claim as stated names the guard \<^verbatim>\<open>LLDB_PROPERTIES_DEBUGGER\<close>; the block of the
  two records is guarded by \<^verbatim>\<open>LLDB_PROPERTIES_Debugger\<close>.
\<close>

theorem enum_guard_uppercase_counterexample:
  "emitPropertyEnum_group ''Debugger'' [verbose, timeout] [] =
     ''// Property enum cases for Debugger'' @ newline @
     ''#ifdef LLDB_PROPERTIES_Debugger'' @ newline @
     ''ePropertyverbose,'' @ newline @
     ''ePropertytimeout,'' @ newline @
     ''#undef LLDB_PROPERTIES_Debugger'' @ newline @
     ''#endif // Debugger Property'' @ newline @ newline \<and>
   NeededMacro ''Debugger'' \<noteq> ''LLDB_PROPERTIES_DEBUGGER''"
  by (simp add: run_defs verbose_def timeout_def)

subsection \<open>Grouping\<close>

text \<open>
  C4. For every list of records whose \<^verbatim>\<open>Definition\<close> can be read,
  \<^verbatim>\<open>getPropertyList\<close> returns a map. The keys of the map, in iteration order, are
  strictly ascending in the byte order of strings; the vector under a key is not empty
  and is the subsequence of the input of the records with that \<^verbatim>\<open>Definition\<close>, in input
  order; every input record is in the vector of exactly one entry, and the vectors
  together hold the input records, each as often as the input does. When the table run
  completes, its output is the header followed by one block per entry in iteration
  order, each holding the rows of its vector in order; every input record has then passed
  validation, so the number of rows is the number of input records that passed
  validation.
\<close>

theorem grouping:
  assumes "\<forall>P \<in> set Properties. \<exists>Key. Definition_of P = Inr Key"
  shows "\<exists>PropertyList. getPropertyList Properties = Inr PropertyList \<and>
    sorted_wrt (<) (map fst PropertyList) \<and>
    (\<forall>(Key, V) \<in> set PropertyList.
       V \<noteq> [] \<and> V = filter (\<lambda>P. Definition_of P = Inr Key) Properties) \<and>
    (\<forall>P \<in> set Properties. \<exists>!p. p \<in> set PropertyList \<and> P \<in> set (snd p)) \<and>
    mset (concat (map snd PropertyList)) = mset Properties \<and>
    (\<forall>out. EmitPropertyDefs emitSourceFileHeader Properties OS = Inr out \<longrightarrow>
       out = emitSourceFileHeader ''Property definitions for LLDB.'' OS @
         concat (map (\<lambda>(Key, V).
           ''// Property definitions for '' @ Key @ newline @
           ''#ifdef '' @ NeededMacro Key @ newline @
           ''static constexpr PropertyDefinition g_'' @ Key @ ''_properties[] = {'' @ newline @
           concat (map row_of V) @
           ''};'' @ newline @
           ''#undef '' @ NeededMacro Key @ newline @
           ''#endif // '' @ Key @ '' Property'' @ newline @ newline) PropertyList) \<and>
       (\<forall>P \<in> set Properties. emitProperty P [] = Inr (row_of P)) \<and>
       length (concat (map snd PropertyList)) =
         length (filter (\<lambda>P. (hasDefaultUnsignedValue P \<or> hasDefaultEnumValue P \<or>
             hasDefaultStringValue P) \<and>
           \<not> (hasDefaultUnsignedValue P \<and> hasDefaultEnumValue P)) Properties))"
proof -
  have "getPropertyList Properties \<noteq> Inl e" for e
    using assms by (auto simp: getPropertyList_def getPropertyList_from_Inl)
  then obtain PropertyList where gpl: "getPropertyList Properties = Inr PropertyList"
    by (cases "getPropertyList Properties") auto
  have main: "sorted_wrt (<) (map fst PropertyList) \<and>
    (\<forall>(Key, V) \<in> set PropertyList.
       V \<noteq> [] \<and> V = filter (\<lambda>P. Definition_of P = Inr Key) Properties) \<and>
    (\<forall>P \<in> set Properties. \<exists>!p. p \<in> set PropertyList \<and> P \<in> set (snd p)) \<and>
    mset (concat (map snd PropertyList)) = mset Properties \<and>
    (\<forall>out. EmitPropertyDefs emitSourceFileHeader Properties OS = Inr out \<longrightarrow>
       out = emitSourceFileHeader ''Property definitions for LLDB.'' OS @
         concat (map (\<lambda>(Key, V).
           ''// Property definitions for '' @ Key @ newline @
           ''#ifdef '' @ NeededMacro Key @ newline @
           ''static constexpr PropertyDefinition g_'' @ Key @ ''_properties[] = {'' @ newline @
           concat (map row_of V) @
           ''};'' @ newline @
           ''#undef '' @ NeededMacro Key @ newline @
           ''#endif // '' @ Key @ '' Property'' @ newline @ newline) PropertyList) \<and>
       (\<forall>P \<in> set Properties. emitProperty P [] = Inr (row_of P)) \<and>
       length (concat (map snd PropertyList)) =
         length (filter (\<lambda>P. (hasDefaultUnsignedValue P \<or> hasDefaultEnumValue P \<or>
             hasDefaultStringValue P) \<and>
           \<not> (hasDefaultUnsignedValue P \<and> hasDefaultEnumValue P)) Properties))"
  proof (intro conjI allI impI ballI)
  show sorted: "sorted_wrt (<) (map fst PropertyList)"
    by (rule getPropertyList_Inr(1) [OF gpl])
  show "case p of (Key, V) \<Rightarrow> V \<noteq> [] \<and> V = filter (\<lambda>P. Definition_of P = Inr Key) Properties"
    if "p \<in> set PropertyList" for p
    using group_is_filter [OF gpl, of "fst p" "snd p"] that by (cases p) simp
  show mset: "mset (concat (map snd PropertyList)) = mset Properties"
    using mset_getPropertyList_from [OF gpl [unfolded getPropertyList_def]] by simp
  show "\<exists>!p. p \<in> set PropertyList \<and> P \<in> set (snd p)" if P: "P \<in> set Properties" for P
  proof -
    from group_of_record [OF gpl P] obtain Key V
      where mem: "(Key, V) \<in> set PropertyList" and PV: "P \<in> set V"
        and Key: "Definition_of P = Inr Key" by blast
    have uniq: "p = (Key, V)" if p: "p \<in> set PropertyList" "P \<in> set (snd p)" for p
    proof -
      from p(1) have "(fst p, snd p) \<in> set PropertyList" by simp
      from group_is_filter(1) [OF gpl this]
      have sp: "snd p = filter (\<lambda>P. Definition_of P = Inr (fst p)) Properties" .
      with p(2) Key have "fst p = Key" by auto
      with sp group_is_filter(1) [OF gpl mem] have "snd p = V" by simp
      with \<open>fst p = Key\<close> show ?thesis by (cases p) simp
    qed
    show ?thesis
    proof (rule ex1I [of _ "(Key, V)"])
      show "(Key, V) \<in> set PropertyList \<and> P \<in> set (snd (Key, V))"
        using mem PV by simp
    next
      fix p assume "p \<in> set PropertyList \<and> P \<in> set (snd p)"
      then show "p = (Key, V)" by (intro uniq) simp_all
    qed
  qed
next
  fix out assume run: "EmitPropertyDefs emitSourceFileHeader Properties OS = Inr out"
  with gpl have "for_each (\<lambda>p. emityProperties (fst p) (snd p)) PropertyList
      (emitSourceFileHeader ''Property definitions for LLDB.'' OS) = Inr out"
    by (simp add: EmitPropertyDefs_def)
  then show "out = emitSourceFileHeader ''Property definitions for LLDB.'' OS @
         concat (map (\<lambda>(Key, V).
           ''// Property definitions for '' @ Key @ newline @
           ''#ifdef '' @ NeededMacro Key @ newline @
           ''static constexpr PropertyDefinition g_'' @ Key @ ''_properties[] = {'' @ newline @
           concat (map row_of V) @
           ''};'' @ newline @
           ''#undef '' @ NeededMacro Key @ newline @
           ''#endif // '' @ Key @ '' Property'' @ newline @ newline) PropertyList)"
    by (rule for_each_emityProperties_blocks)
  have ok: "\<exists>b. emitProperty P [] = Inr b" if "P \<in> set Properties" for P
  proof -
    from EmitPropertyDefs_Inr [OF run that] obtain a b where "emitProperty P a = Inr b" by blast
    then show ?thesis
      using emitProperty_prepend [of P a] by (cases "emitProperty P []") auto
  qed
  show "emitProperty P [] = Inr (row_of P)" if "P \<in> set Properties" for P
    using ok [OF that] by (auto simp: row_of_def stream_of_def)
  have "(hasDefaultUnsignedValue P \<or> hasDefaultEnumValue P \<or> hasDefaultStringValue P) \<and>
           \<not> (hasDefaultUnsignedValue P \<and> hasDefaultEnumValue P)" if "P \<in> set Properties" for P
  proof -
    from ok [OF that] obtain b where "emitProperty P [] = Inr b" by blast
    then show ?thesis by (cases P "[] :: string" rule: emitProperty_cases) auto
  qed
  then have "filter (\<lambda>P. (hasDefaultUnsignedValue P \<or> hasDefaultEnumValue P \<or>
             hasDefaultStringValue P) \<and>
           \<not> (hasDefaultUnsignedValue P \<and> hasDefaultEnumValue P)) Properties = Properties"
    by (simp add: filter_id_conv)
  moreover have "length (concat (map snd PropertyList)) = length Properties"
  proof -
    have "size (mset (concat (map snd PropertyList))) = size (mset Properties)"
      using mset_getPropertyList_from [OF gpl [unfolded getPropertyList_def]] by simp
    then show ?thesis by (simp only: size_mset)
  qed
  ultimately show "length (concat (map snd PropertyList)) =
         length (filter (\<lambda>P. (hasDefaultUnsignedValue P \<or> hasDefaultEnumValue P \<or>
             hasDefaultStringValue P) \<and>
           \<not> (hasDefaultUnsignedValue P \<and> hasDefaultEnumValue P)) Properties)"
    by simp
qed
  show ?thesis
    by (rule exI [of _ PropertyList]) (rule conjI [OF gpl main])
qed

theorem grouping_witness:
  "getPropertyList [timeout, arg0, verbose] =
     Inr [(''Debugger'', [timeout, verbose]), (''Target'', [arg0])] \<and>
   sorted_wrt (<) [''Debugger'', ''Target''] \<and>
   mset (concat (map snd [(''Debugger'', [timeout, verbose]), (''Target'', [arg0])])) =
     mset [timeout, arg0, verbose] \<and>
   EmitPropertyDefs comment_header [timeout, arg0, verbose] [] = Inr (
     ''// Property definitions for LLDB.'' @ newline @
     ''// Property definitions for Debugger'' @ newline @
     ''#ifdef LLDB_PROPERTIES_Debugger'' @ newline @
     ''static constexpr PropertyDefinition g_Debugger_properties[] = {'' @ newline @
     ''  {'' @ dquote @ ''timeout'' @ dquote @
       '', OptionValue::eTypeUInt64, true, 30, nullptr, {}, '' @
       dquote @ ''Seconds'' @ dquote @ ''},'' @ newline @
     ''  {'' @ dquote @ ''verbose'' @ dquote @
       '', OptionValue::eTypeBoolean, false, 0, nullptr, {}, '' @
       dquote @ dquote @ ''},'' @ newline @
     ''};'' @ newline @
     ''#undef LLDB_PROPERTIES_Debugger'' @ newline @
     ''#endif // Debugger Property'' @ newline @ newline @
     ''// Property definitions for Target'' @ newline @
     ''#ifdef LLDB_PROPERTIES_Target'' @ newline @
     ''static constexpr PropertyDefinition g_Target_properties[] = {'' @ newline @
     ''  {'' @ dquote @ ''arg0'' @ dquote @
       '', OptionValue::eTypeString, false, 0, '' @ dquote @ dquote @ '', {}, '' @
       dquote @ dquote @ ''},'' @ newline @
     ''};'' @ newline @
     ''#undef LLDB_PROPERTIES_Target'' @ newline @
     ''#endif // Target Property'' @ newline @ newline) \<and>
   length (concat (map snd [(''Debugger'', [timeout, verbose]), (''Target'', [arg0])])) = 3"
proof -
  have gpl: "getPropertyList [timeout, arg0, verbose] =
     Inr [(''Debugger'', [timeout, verbose]), (''Target'', [arg0])]"
    by (simp add: getPropertyList_def timeout_def arg0_def verbose_def accessors)
  have run: "EmitPropertyDefs comment_header [timeout, arg0, verbose] [] = Inr (
     ''// Property definitions for LLDB.'' @ newline @
     ''// Property definitions for Debugger'' @ newline @
     ''#ifdef LLDB_PROPERTIES_Debugger'' @ newline @
     ''static constexpr PropertyDefinition g_Debugger_properties[] = {'' @ newline @
     ''  {'' @ dquote @ ''timeout'' @ dquote @
       '', OptionValue::eTypeUInt64, true, 30, nullptr, {}, '' @
       dquote @ ''Seconds'' @ dquote @ ''},'' @ newline @
     ''  {'' @ dquote @ ''verbose'' @ dquote @
       '', OptionValue::eTypeBoolean, false, 0, nullptr, {}, '' @
       dquote @ dquote @ ''},'' @ newline @
     ''};'' @ newline @
     ''#undef LLDB_PROPERTIES_Debugger'' @ newline @
     ''#endif // Debugger Property'' @ newline @ newline @
     ''// Property definitions for Target'' @ newline @
     ''#ifdef LLDB_PROPERTIES_Target'' @ newline @
     ''static constexpr PropertyDefinition g_Target_properties[] = {'' @ newline @
     ''  {'' @ dquote @ ''arg0'' @ dquote @
       '', OptionValue::eTypeString, false, 0, '' @ dquote @ dquote @ '', {}, '' @
       dquote @ dquote @ ''},'' @ newline @
     ''};'' @ newline @
     ''#undef LLDB_PROPERTIES_Target'' @ newline @
     ''#endif // Target Property'' @ newline @ newline)"
    by (simp add: run_defs timeout_def arg0_def verbose_def accessors)
  have defs: "\<forall>P \<in> set [timeout, arg0, verbose]. \<exists>Key. Definition_of P = Inr Key"
    by (simp add: timeout_def arg0_def verbose_def accessors)
  from grouping [OF defs, of comment_header "[]"] obtain PropertyList
    where pl: "getPropertyList [timeout, arg0, verbose] = Inr PropertyList"
      and a0: "sorted_wrt (<) (map fst PropertyList)"
      and b0: "mset (concat (map snd PropertyList)) = mset [timeout, arg0, verbose]"
    by (elim exE conjE)
  from pl gpl have "PropertyList = [(''Debugger'', [timeout, verbose]), (''Target'', [arg0])]"
    by simp
  with a0 b0 have a: "sorted_wrt (<) [''Debugger'', ''Target'']"
    and b: "mset (concat (map snd [(''Debugger'', [timeout, verbose]), (''Target'', [arg0])])) =
     mset [timeout, arg0, verbose]"
    by simp_all
  have c: "length (concat (map snd [(''Debugger'', [timeout, verbose]), (''Target'', [arg0])])) = 3"
    by simp
  from gpl a b run c show ?thesis
    by (intro conjI)
qed

subsection \<open>Determinism\<close>

text \<open>
  C8. A run is a function of the list of records, the header writer and the stream it
  is given: the source draws on nothing else, and the one container whose iteration
  order could vary is a map ordered by its string keys. So two runs in one mode on the
  same input give the same bytes. The output depends on the input only through its
  groups: two inputs with the same records in the same order under every definition
  give the same result in both modes, however the groups are interleaved; and two
  inputs with the same set of records give the same sequence of groups.
\<close>

theorem output_fixed_by_the_groups:
  "((\<forall>Key. filter (\<lambda>P. Definition_of P = Key) xs = filter (\<lambda>P. Definition_of P = Key) ys) \<longrightarrow>
      EmitPropertyDefs emitSourceFileHeader xs OS = EmitPropertyDefs emitSourceFileHeader ys OS \<and>
      EmitPropertyEnumDefs emitSourceFileHeader xs OS =
        EmitPropertyEnumDefs emitSourceFileHeader ys OS) \<and>
   (set xs = set ys \<and> getPropertyList xs = Inr m \<and> getPropertyList ys = Inr m' \<longrightarrow>
      map fst m = map fst m')"
proof (intro conjI impI)
  assume "\<forall>Key. filter (\<lambda>P. Definition_of P = Key) xs = filter (\<lambda>P. Definition_of P = Key) ys"
  then have eq: "getPropertyList xs = getPropertyList ys"
    by (intro getPropertyList_determined) simp
  show "EmitPropertyDefs emitSourceFileHeader xs OS = EmitPropertyDefs emitSourceFileHeader ys OS"
    by (simp add: EmitPropertyDefs_def eq)
  show "EmitPropertyEnumDefs emitSourceFileHeader xs OS =
        EmitPropertyEnumDefs emitSourceFileHeader ys OS"
    by (simp add: EmitPropertyEnumDefs_def eq)
next
  assume "set xs = set ys \<and> getPropertyList xs = Inr m \<and> getPropertyList ys = Inr m'"
  then show "map fst m = map fst m'"
    using group_order_of_record_set [of xs ys m m'] by simp
qed

theorem output_fixed_by_the_groups_witness:
  "(\<forall>Key. filter (\<lambda>P. Definition_of P = Key) [verbose, arg0, timeout] =
      filter (\<lambda>P. Definition_of P = Key) [arg0, verbose, timeout]) \<and>
   EmitPropertyDefs comment_header [verbose, arg0, timeout] [] =
     EmitPropertyDefs comment_header [arg0, verbose, timeout] [] \<and>
   EmitPropertyEnumDefs comment_header [verbose, arg0, timeout] [] =
     EmitPropertyEnumDefs comment_header [arg0, verbose, timeout] [] \<and>
   set [timeout, arg0, verbose] = set [verbose, timeout, arg0, verbose] \<and>
   getPropertyList [timeout, arg0, verbose] =
     Inr [(''Debugger'', [timeout, verbose]), (''Target'', [arg0])] \<and>
   getPropertyList [verbose, timeout, arg0, verbose] =
     Inr [(''Debugger'', [verbose, timeout, verbose]), (''Target'', [arg0])]"
proof -
  have h: "\<forall>Key. filter (\<lambda>P. Definition_of P = Key) [verbose, arg0, timeout] =
      filter (\<lambda>P. Definition_of P = Key) [arg0, verbose, timeout]"
    by (auto simp: verbose_def arg0_def timeout_def accessors)
  have s: "set [timeout, arg0, verbose] = set [verbose, timeout, arg0, verbose]"
    by auto
  have g1: "getPropertyList [timeout, arg0, verbose] =
     Inr [(''Debugger'', [timeout, verbose]), (''Target'', [arg0])]"
    by (simp add: getPropertyList_def timeout_def arg0_def verbose_def accessors)
  have g2: "getPropertyList [verbose, timeout, arg0, verbose] =
     Inr [(''Debugger'', [verbose, timeout, verbose]), (''Target'', [arg0])]"
    by (simp add: getPropertyList_def timeout_def arg0_def verbose_def accessors)
  from output_fixed_by_the_groups [where xs = "[verbose, arg0, timeout]"
      and ys = "[arg0, verbose, timeout]" and emitSourceFileHeader = comment_header
      and OS = "[]" and m = "[]" and m' = "[]"] h
  have "EmitPropertyDefs comment_header [verbose, arg0, timeout] [] =
     EmitPropertyDefs comment_header [arg0, verbose, timeout] [] \<and>
   EmitPropertyEnumDefs comment_header [verbose, arg0, timeout] [] =
     EmitPropertyEnumDefs comment_header [arg0, verbose, timeout] []"
    by blast
  with h s g1 g2 show ?thesis by blast
qed

end
